theory Spec2Isabelle
  imports Complex_Main
begin

section \<open>Go's float64, as far as TransferFunds uses it\<close>

text \<open>
  \<^verbatim>\<open>Account.Balance\<close>, \<^verbatim>\<open>TransferRequest.Amount\<close> and the \<^verbatim>\<open>amount\<close> parameter of
  \<^verbatim>\<open>TransferFunds\<close> are \<^verbatim>\<open>float64\<close> (src/types.go, src/storage.go), and the column is
  \<^verbatim>\<open>balance float\<close>, PostgreSQL's double precision. A value is a finite binary64 number,
  kept as the rational it denotes, an infinity, or NaN. The two zeros are identified, as
  Go's \<^verbatim>\<open>==\<close> identifies them. The operations the code uses are \<^verbatim>\<open>+\<close>, \<^verbatim>\<open>-\<close> and \<^verbatim>\<open>>\<close>:
  the exact result rounded to the nearest binary64 number, ties to the even mantissa.
\<close>

datatype float64 = Finite rat | PosInf | NegInf | NaN

text \<open>\<open>bitlen n\<close> is the number of binary digits of a positive integer \<open>n\<close>.\<close>

function bitlen :: "int \<Rightarrow> int" where
  "bitlen n = (if n \<le> 0 then 0 else 1 + bitlen (n div 2))"
  by pat_completeness auto
termination
  by (relation "measure nat") auto

declare bitlen.simps [simp del]

definition pow2 :: "int \<Rightarrow> rat" where
  "pow2 e = (if 0 \<le> e then 2 ^ nat e else 1 / 2 ^ nat (- e))"

text \<open>\<open>ilog2 a\<close> is \<open>\<lfloor>log\<^sub>2 a\<rfloor>\<close> for a positive rational \<open>a\<close>.\<close>

definition ilog2 :: "rat \<Rightarrow> int" where
  "ilog2 a = (if 1 \<le> a then bitlen \<lfloor>a\<rfloor> - 1 else - bitlen (\<lceil>1 / a\<rceil> - 1))"

definition round_half_even :: "rat \<Rightarrow> int" where
  "round_half_even x =
     (let f = \<lfloor>x\<rfloor>; r = x - of_int f
      in if r < 1 / 2 then f
         else if 1 / 2 < r then f + 1
         else if even f then f else f + 1)"

text \<open>
  Rounding to binary64: 53 bits of mantissa, the least exponent of a unit in the last
  place is \<open>-1074\<close> (subnormal numbers), and a result of magnitude \<open>2^1024\<close> or more
  overflows to an infinity.
\<close>

definition round_f64 :: "rat \<Rightarrow> float64" where
  "round_f64 q =
     (if q = 0 then Finite 0
      else let a = \<bar>q\<bar>;
               e = max (ilog2 a - 52) (- 1074);
               m = round_half_even (a / pow2 e);
               r = of_int m * pow2 e
           in if pow2 1024 \<le> r then (if 0 < q then PosInf else NegInf)
              else Finite (if 0 < q then r else - r))"

fun f64_neg :: "float64 \<Rightarrow> float64" where
  "f64_neg (Finite q) = Finite (- q)"
| "f64_neg PosInf = NegInf"
| "f64_neg NegInf = PosInf"
| "f64_neg NaN = NaN"

fun f64_add :: "float64 \<Rightarrow> float64 \<Rightarrow> float64" where
  "f64_add NaN y = NaN"
| "f64_add x NaN = NaN"
| "f64_add PosInf NegInf = NaN"
| "f64_add NegInf PosInf = NaN"
| "f64_add PosInf y = PosInf"
| "f64_add NegInf y = NegInf"
| "f64_add x PosInf = PosInf"
| "f64_add x NegInf = NegInf"
| "f64_add (Finite p) (Finite q) = round_f64 (p + q)"

definition f64_sub :: "float64 \<Rightarrow> float64 \<Rightarrow> float64" where
  "f64_sub x y = f64_add x (f64_neg y)"

text \<open>\<open>f64_gt x y\<close> is Go's \<^verbatim>\<open>x > y\<close>: false whenever an operand is NaN.\<close>

fun f64_gt :: "float64 \<Rightarrow> float64 \<Rightarrow> bool" where
  "f64_gt NaN y = False"
| "f64_gt x NaN = False"
| "f64_gt (Finite p) (Finite q) = (q < p)"
| "f64_gt PosInf PosInf = False"
| "f64_gt PosInf y = True"
| "f64_gt x PosInf = False"
| "f64_gt NegInf y = False"
| "f64_gt x NegInf = True"

text \<open>\<open>f64_le x y\<close> is Go's \<^verbatim>\<open>x <= y\<close>, again false on NaN.\<close>

fun f64_le :: "float64 \<Rightarrow> float64 \<Rightarrow> bool" where
  "f64_le NaN y = False"
| "f64_le x NaN = False"
| "f64_le (Finite p) (Finite q) = (p \<le> q)"
| "f64_le NegInf y = True"
| "f64_le x PosInf = True"
| "f64_le PosInf y = False"
| "f64_le x NegInf = False"


section \<open>The data model (src/types.go)\<close>

record Claims =
  IBAN :: string
  ExpiresAt :: int
  IssuedAt :: int
  Issuer :: string

record TransferRequest =
  ToAccountIban :: string
  Amount :: float64

record Account =
  ID :: int
  FirstName :: string
  LastName :: string
  EncryptedPassword :: string
  IBAN :: string
  Balance :: float64
  CreatedAt :: int

text \<open>The zero value of \<^verbatim>\<open>Account\<close>, which \<^verbatim>\<open>var account Account\<close> declares.\<close>

definition zeroAccount :: Account where
  "zeroAccount = \<lparr>ID = 0, FirstName = [], LastName = [], EncryptedPassword = [],
     IBAN = [], Balance = Finite 0, CreatedAt = 0\<rparr>"

section \<open>The store (src/storage.go)\<close>

text \<open>
  The errors a transfer returns: \<^verbatim>\<open>sql.ErrNoRows\<close> from \<^verbatim>\<open>Scan\<close> in \<^verbatim>\<open>lockAccount\<close>,
  \<^verbatim>\<open>fmt.Errorf("Balance not sufficient")\<close>, \<^verbatim>\<open>fmt.Errorf("no claims found in request context")\<close>,
  an error of the JSON decoder, an error of \<^verbatim>\<open>ValidateToken\<close>, and any other error of
  \<^verbatim>\<open>database/sql\<close> and its driver.
\<close>

datatype error =
    ErrNoRows
  | BalanceNotSufficient
  | NoClaims
  | DecodeError string
  | TokenError string
  | DriverError string

text \<open>
  The database is the table \<^verbatim>\<open>account\<close>, its rows in the order a scan returns them. The
  table declares no uniqueness of \<^verbatim>\<open>iban\<close>, so the rows are a list. What the driver and
  the server may refuse is a parameter: \<open>beginErr\<close> for \<^verbatim>\<open>db.Begin\<close>, \<open>stmtErr n\<close> for
  the \<open>n\<close>-th statement of the transaction, \<open>commitErr\<close> for \<^verbatim>\<open>tx.Commit\<close>.
\<close>

record PostgresStore =
  db :: "Account list"

record driver =
  beginErr :: "string option"
  stmtErr :: "nat \<Rightarrow> string option"
  commitErr :: "string option"

definition available :: driver where
  "available = \<lparr>beginErr = None, stmtErr = (\<lambda>n. None), commitErr = None\<rparr>"

text \<open>
  A transaction works on its own copy of the rows, counts its statements, and records the
  routing ids whose rows it has locked, in the order of the \<^verbatim>\<open>FOR UPDATE\<close> queries.
\<close>

record Tx =
  tx_rows :: "Account list"
  tx_locks :: "string list"
  tx_stmts :: nat

definition Begin :: "PostgresStore \<Rightarrow> Tx" where
  "Begin s = \<lparr>tx_rows = db s, tx_locks = [], tx_stmts = 0\<rparr>"

text \<open>
  \<^verbatim>\<open>SELECT iban, balance FROM account WHERE iban = $1 FOR UPDATE\<close>, scanned by \<^verbatim>\<open>QueryRow\<close>:
  the first row that matches, or \<^verbatim>\<open>sql.ErrNoRows\<close>. Only \<^verbatim>\<open>IBAN\<close> and \<^verbatim>\<open>Balance\<close> of the
  result are set.
\<close>

definition lockAccount :: "driver \<Rightarrow> Tx \<Rightarrow> string \<Rightarrow> (error + Account) \<times> Tx" where
  "lockAccount drv tx iban =
     (let tx' = tx\<lparr>tx_stmts := Suc (tx_stmts tx)\<rparr>
      in case stmtErr drv (tx_stmts tx) of
           Some msg \<Rightarrow> (Inl (DriverError msg), tx')
         | None \<Rightarrow>
             (case filter (\<lambda>r. Account.IBAN r = iban) (tx_rows tx) of
                [] \<Rightarrow> (Inl ErrNoRows, tx')
              | r # _ \<Rightarrow>
                  (Inr (zeroAccount\<lparr>Account.IBAN := Account.IBAN r, Balance := Balance r\<rparr>),
                   tx'\<lparr>tx_locks := tx_locks tx @ [iban]\<rparr>)))"

text \<open>
  The closure \<^verbatim>\<open>updateBalance\<close> of \<^verbatim>\<open>TransferFunds\<close>:
  \<^verbatim>\<open>update account set balance = $2 where iban = $1\<close>, on every row that matches.
\<close>

definition updateBalance :: "driver \<Rightarrow> Tx \<Rightarrow> string \<Rightarrow> float64 \<Rightarrow> error option \<times> Tx" where
  "updateBalance drv tx iban balance =
     (let tx' = tx\<lparr>tx_stmts := Suc (tx_stmts tx)\<rparr>
      in case stmtErr drv (tx_stmts tx) of
           Some msg \<Rightarrow> (Some (DriverError msg), tx')
         | None \<Rightarrow>
             (None, tx'\<lparr>tx_rows :=
                map (\<lambda>r. if Account.IBAN r = iban then r\<lparr>Balance := balance\<rparr> else r)
                  (tx_rows tx)\<rparr>))"

text \<open>
  The body of \<^verbatim>\<open>TransferFunds\<close> between \<^verbatim>\<open>db.Begin\<close> and \<^verbatim>\<open>tx.Commit\<close> (lines 126 to 150):
  lock the source, compare, write the source, lock the destination, write the destination.
\<close>

definition transferTx :: "driver \<Rightarrow> Tx \<Rightarrow> string \<Rightarrow> string \<Rightarrow> float64 \<Rightarrow> error option \<times> Tx" where
  "transferTx drv tx fromIban toIban amount =
     (case lockAccount drv tx fromIban of
        (Inl err, tx1) \<Rightarrow> (Some err, tx1)
      | (Inr fromAccount, tx1) \<Rightarrow>
          if f64_gt amount (Balance fromAccount) then (Some BalanceNotSufficient, tx1)
          else
            (case updateBalance drv tx1 fromIban (f64_sub (Balance fromAccount) amount) of
               (Some err, tx2) \<Rightarrow> (Some err, tx2)
             | (None, tx2) \<Rightarrow>
                 (case lockAccount drv tx2 toIban of
                    (Inl err, tx3) \<Rightarrow> (Some err, tx3)
                  | (Inr toAccount, tx3) \<Rightarrow>
                      updateBalance drv tx3 toIban (f64_add (Balance toAccount) amount))))"

text \<open>
  \<^verbatim>\<open>TransferFunds\<close>: the deferred \<^verbatim>\<open>tx.Rollback()\<close> discards the transaction's rows on every
  return but the one after a successful \<^verbatim>\<open>tx.Commit()\<close>.
\<close>

definition TransferFunds ::
  "driver \<Rightarrow> PostgresStore \<Rightarrow> string \<Rightarrow> string \<Rightarrow> float64 \<Rightarrow> error option \<times> PostgresStore" where
  "TransferFunds drv s fromIban toIban amount =
     (case beginErr drv of
        Some msg \<Rightarrow> (Some (DriverError msg), s)
      | None \<Rightarrow>
          (case transferTx drv (Begin s) fromIban toIban amount of
             (Some err, tx) \<Rightarrow> (Some err, s)
           | (None, tx) \<Rightarrow>
               (case commitErr drv of
                  Some msg \<Rightarrow> (Some (DriverError msg), s)
                | None \<Rightarrow> (None, s\<lparr>db := tx_rows tx\<rparr>))))"

text \<open>The row locks a transfer has taken when it returns, in the order it took them.\<close>

definition lockOrder :: "driver \<Rightarrow> PostgresStore \<Rightarrow> string \<Rightarrow> string \<Rightarrow> float64 \<Rightarrow> string list" where
  "lockOrder drv s fromIban toIban amount =
     tx_locks (snd (transferTx drv (Begin s) fromIban toIban amount))"

text \<open>
  The balance a query by routing id reads: that of the first row that matches, as
  \<^verbatim>\<open>GetAccountByIban\<close> and \<^verbatim>\<open>lockAccount\<close> read it.
\<close>

definition balanceOf :: "PostgresStore \<Rightarrow> string \<Rightarrow> float64 option" where
  "balanceOf s iban =
     (case filter (\<lambda>r. Account.IBAN r = iban) (db s) of
        [] \<Rightarrow> None
      | r # _ \<Rightarrow> Some (Balance r))"


section \<open>The request layer (src/api.go)\<close>

text \<open>The text of an error, \<^verbatim>\<open>err.Error()\<close>, which \<^verbatim>\<open>makeHTTPHandleFunc\<close> sends to the client.\<close>

fun Error :: "error \<Rightarrow> string" where
  "Error ErrNoRows = ''sql: no rows in result set''"
| "Error BalanceNotSufficient = ''Balance not sufficient''"
| "Error NoClaims = ''no claims found in request context''"
| "Error (DecodeError msg) = msg"
| "Error (TokenError msg) = msg"
| "Error (DriverError msg) = msg"

text \<open>
  Of a request the handlers read the \<^verbatim>\<open>Authorization\<close> header (empty when absent), the
  value under \<^verbatim>\<open>claimsKey\<close> in the context, and the body.
\<close>

record 'b Request =
  authHeader :: string
  ctxClaims :: "Claims option"
  body :: 'b

text \<open>
  What a handler of type \<^verbatim>\<open>apiFunc\<close> does: it returns nil after writing its response,
  returns an error, or panics.
\<close>

datatype result = Done | Failed error | Panic

datatype response = OK200 | BadRequest400 string | NoResponse

text \<open>
  \<^verbatim>\<open>handleTransfer\<close>. The store is the interface \<^verbatim>\<open>Storage\<close>, so its \<^verbatim>\<open>TransferFunds\<close> is
  a parameter, and so is \<^verbatim>\<open>json.NewDecoder(r.Body).Decode(&transferReq)\<close>: it returns an
  error, or the request it has decoded, or, for the JSON value \<^verbatim>\<open>null\<close>, sets the pointer
  \<^verbatim>\<open>transferReq\<close> to nil, and reading \<^verbatim>\<open>transferReq.ToAccountIban\<close> panics.
\<close>

definition handleTransfer ::
  "('s \<Rightarrow> string \<Rightarrow> string \<Rightarrow> float64 \<Rightarrow> error option \<times> 's) \<Rightarrow>
   ('b \<Rightarrow> error + TransferRequest option) \<Rightarrow> 's \<Rightarrow> 'b Request \<Rightarrow> result \<times> 's" where
  "handleTransfer transferFunds decode store r =
     (case ctxClaims r of
        None \<Rightarrow> (Failed NoClaims, store)
      | Some claims \<Rightarrow>
          (let fromAccountIban = Claims.IBAN claims
           in case decode (body r) of
                Inl err \<Rightarrow> (Failed err, store)
              | Inr None \<Rightarrow> (Panic, store)
              | Inr (Some transferReq) \<Rightarrow>
                  (case transferFunds store fromAccountIban (ToAccountIban transferReq)
                          (Amount transferReq) of
                     (Some err, store') \<Rightarrow> (Failed err, store')
                   | (None, store') \<Rightarrow> (Done, store'))))"

text \<open>
  \<^verbatim>\<open>makeHTTPHandleFunc\<close>: an error becomes status 400 with the error's text. A panic of the
  handler is recovered by \<^verbatim>\<open>net/http\<close>, which closes the connection without a response.
\<close>

definition makeHTTPHandleFunc ::
  "('s \<Rightarrow> 'b Request \<Rightarrow> result \<times> 's) \<Rightarrow> 's \<Rightarrow> 'b Request \<Rightarrow> response \<times> 's" where
  "makeHTTPHandleFunc f store r =
     (case f store r of
        (Done, store') \<Rightarrow> (OK200, store')
      | (Failed err, store') \<Rightarrow> (BadRequest400 (Error err), store')
      | (Panic, store') \<Rightarrow> (NoResponse, store'))"

text \<open>\<^verbatim>\<open>strings.Split(s, " ")\<close>: the pieces of \<open>s\<close> between single spaces, at least one.\<close>

fun splitSpace :: "string \<Rightarrow> string list" where
  "splitSpace [] = [[]]"
| "splitSpace (c # cs) =
     (if c = CHR '' '' then [] # splitSpace cs
      else (case splitSpace cs of
              [] \<Rightarrow> [[c]]
            | p # ps \<Rightarrow> (c # p) # ps))"

text \<open>
  \<^verbatim>\<open>validateTokenMiddleware\<close>, with \<^verbatim>\<open>ValidateToken\<close> (the JWT library and the secret of the
  environment) as a parameter. The claims of the token replace whatever the context held
  under \<^verbatim>\<open>claimsKey\<close>.
\<close>

definition validateTokenMiddleware ::
  "(string \<Rightarrow> error + Claims) \<Rightarrow> ('s \<Rightarrow> 'b Request \<Rightarrow> response \<times> 's) \<Rightarrow>
   's \<Rightarrow> 'b Request \<Rightarrow> response \<times> 's" where
  "validateTokenMiddleware ValidateToken next store r =
     (if authHeader r = [] then (BadRequest400 ''Authorization header is required'', store)
      else
        (let headerParts = splitSpace (authHeader r)
         in if length headerParts \<noteq> 2 \<or> headerParts ! 0 \<noteq> ''Bearer''
            then (BadRequest400
                    (''Authorization header must be in the format '' @ [CHR 0x27] @
                     ''Bearer {token}'' @ [CHR 0x27]), store)
            else
              (let tokenStr = headerParts ! 1
               in case ValidateToken tokenStr of
                    Inl err \<Rightarrow> (BadRequest400 ''Access Denied'', store)
                  | Inr claims \<Rightarrow> next store (r\<lparr>ctxClaims := Some claims\<rparr>))))"

text \<open>
  The route \<^verbatim>\<open>POST /transfer\<close> as \<^verbatim>\<open>Run\<close> registers it:
  \<^verbatim>\<open>validateTokenMiddleware(makeHTTPHandleFunc(s.handleTransfer))\<close>.
\<close>

definition transferRoute ::
  "(string \<Rightarrow> error + Claims) \<Rightarrow> ('s \<Rightarrow> string \<Rightarrow> string \<Rightarrow> float64 \<Rightarrow> error option \<times> 's) \<Rightarrow>
   ('b \<Rightarrow> error + TransferRequest option) \<Rightarrow> 's \<Rightarrow> 'b Request \<Rightarrow> response \<times> 's" where
  "transferRoute ValidateToken transferFunds decode =
     validateTokenMiddleware ValidateToken
       (makeHTTPHandleFunc (handleTransfer transferFunds decode))"

text \<open>
  An implementation of \<^verbatim>\<open>Storage.TransferFunds\<close> that only records the arguments of each
  call, to observe what the handler passes to the engine.
\<close>

definition recordCall ::
  "(string \<times> string \<times> float64) list \<Rightarrow> string \<Rightarrow> string \<Rightarrow> float64 \<Rightarrow>
   error option \<times> (string \<times> string \<times> float64) list" where
  "recordCall calls fromIban toIban amount = (None, calls @ [(fromIban, toIban, amount)])"

section \<open>Notions the properties are stated with\<close>

text \<open>
  A float64 value is well formed when its rational is a binary64 number, that is, when
  rounding leaves it as it is. Every value Go computes or the column holds is
  (\<open>round_f64_wf\<close>, \<open>TransferFunds_wf\<close> below).
\<close>

definition wf_f64 :: "float64 \<Rightarrow> bool" where
  "wf_f64 x = (case x of Finite q \<Rightarrow> round_f64 q = Finite q | _ \<Rightarrow> True)"

text \<open>A sum or difference is exact when both operands are finite and the result is not rounded.\<close>

definition exact_add :: "float64 \<Rightarrow> float64 \<Rightarrow> bool" where
  "exact_add x y =
     (case (x, y) of (Finite p, Finite q) \<Rightarrow> f64_add x y = Finite (p + q) | _ \<Rightarrow> False)"

definition exact_sub :: "float64 \<Rightarrow> float64 \<Rightarrow> bool" where
  "exact_sub x y =
     (case (x, y) of (Finite p, Finite q) \<Rightarrow> f64_sub x y = Finite (p - q) | _ \<Rightarrow> False)"

text \<open>
  The sum of the balances of two routing ids: \<open>exact_total\<close> in the rationals, defined when
  both are finite, and \<open>float_total\<close> as Go's \<^verbatim>\<open>+\<close> computes it.
\<close>

definition exact_total :: "PostgresStore \<Rightarrow> string \<Rightarrow> string \<Rightarrow> rat option" where
  "exact_total s a b =
     (case (balanceOf s a, balanceOf s b) of
        (Some (Finite p), Some (Finite q)) \<Rightarrow> Some (p + q)
      | _ \<Rightarrow> None)"

definition float_total :: "PostgresStore \<Rightarrow> string \<Rightarrow> string \<Rightarrow> float64 option" where
  "float_total s a b =
     (case (balanceOf s a, balanceOf s b) of
        (Some x, Some y) \<Rightarrow> Some (f64_add x y)
      | _ \<Rightarrow> None)"

text \<open>A balance that is a whole number of minor units.\<close>

definition is_integral :: "float64 \<Rightarrow> bool" where
  "is_integral x = (case x of Finite q \<Rightarrow> of_int \<lfloor>q\<rfloor> = q | _ \<Rightarrow> False)"

text \<open>A store whose balances are all binary64 numbers.\<close>

definition wf_store :: "PostgresStore \<Rightarrow> bool" where
  "wf_store s = list_all (\<lambda>r. wf_f64 (Balance r)) (db s)"

text \<open>A balance that is not below zero, and a store of such balances.\<close>

definition nonneg :: "float64 \<Rightarrow> bool" where
  "nonneg x = (\<not> f64_gt (Finite 0) x)"

definition nonneg_store :: "PostgresStore \<Rightarrow> bool" where
  "nonneg_store s = list_all (\<lambda>r. nonneg (Balance r)) (db s)"

section \<open>Example stores and requests\<close>

definition account :: "string \<Rightarrow> float64 \<Rightarrow> Account" where
  "account iban balance = zeroAccount\<lparr>Account.IBAN := iban, Balance := balance\<rparr>"

definition bank :: "float64 \<Rightarrow> float64 \<Rightarrow> PostgresStore" where
  "bank a b = \<lparr>db = [account ''A'' a, account ''B'' b]\<rparr>"

text \<open>
  A token validator that accepts every token as one of the account \<open>A\<close>, and requests
  whose body is the decoded transfer request together with whatever else the client sent.
\<close>

definition claimsA :: Claims where
  "claimsA = \<lparr>Claims.IBAN = ''A'', ExpiresAt = 3600, IssuedAt = 0, Issuer = ''gobank''\<rparr>"

definition acceptA :: "string \<Rightarrow> error + Claims" where
  "acceptA tokenStr = Inr claimsA"

definition decodeFst :: "TransferRequest option \<times> string \<Rightarrow> error + TransferRequest option" where
  "decodeFst b = Inr (fst b)"

definition request :: "string \<Rightarrow> float64 \<Rightarrow> string \<Rightarrow> (TransferRequest option \<times> string) Request" where
  "request toIban amount other =
     \<lparr>authHeader = ''Bearer t'', ctxClaims = None,
      body = (Some \<lparr>ToAccountIban = toIban, Amount = amount\<rparr>, other)\<rparr>"

section \<open>Properties of the float64 operations\<close>

text \<open>The number of binary digits, and the logarithm it gives.\<close>

lemma bitlen_1: "bitlen 1 = 1"
  by (simp add: bitlen.simps[of 1] bitlen.simps[of 0])

lemma bitlen_bounds:
  "0 < n \<Longrightarrow> 0 < bitlen n \<and> 2 ^ nat (bitlen n - 1) \<le> n \<and> n < 2 ^ nat (bitlen n)"
proof (induction n rule: bitlen.induct)
  case (1 n)
  have b: "bitlen n = 1 + bitlen (n div 2)"
    using 1(2) by (subst bitlen.simps) simp
  show ?case
  proof (cases "n div 2 \<le> 0")
    case True
    then have "n = 1" using 1(2) by linarith
    then show ?thesis
      by (simp add: bitlen_1)
  next
    case False
    then have ih: "0 < bitlen (n div 2)" "2 ^ nat (bitlen (n div 2) - 1) \<le> n div 2"
      "n div 2 < 2 ^ nat (bitlen (n div 2))"
      using 1 by simp_all
    define k where "k = nat (bitlen (n div 2) - 1)"
    have k: "nat (bitlen (n div 2)) = Suc k" "nat (bitlen n - 1) = Suc k" "nat (bitlen n) = Suc (Suc k)"
      using ih(1) by (simp_all add: k_def b)
    have "2 * 2 ^ k \<le> n"
      using ih(2) unfolding k_def[symmetric] by linarith
    moreover have "n < 2 * (2 * 2 ^ k)"
      using ih(3) unfolding k(1) by (simp; linarith)
    moreover have "0 < bitlen n"
      using ih(1) by (simp add: b)
    ultimately show ?thesis
      unfolding k(2,3) by simp
  qed
qed


lemma round_half_even_int: "round_half_even (of_int z) = z"
  by (simp add: round_half_even_def)

lemma pow2_powi: "pow2 e = 2 powi e"
  by (simp add: pow2_def power_int_def power_one_over inverse_eq_divide)

lemma of_int_pow2:
  "(2::int) ^ j \<le> n \<Longrightarrow> (2::rat) ^ j \<le> of_int n"
  "n \<le> (2::int) ^ j \<Longrightarrow> of_int n \<le> (2::rat) ^ j"
  "n < (2::int) ^ j \<Longrightarrow> of_int n < (2::rat) ^ j"
  by (metis of_int_le_iff of_int_numeral of_int_power,
      metis of_int_le_iff of_int_numeral of_int_power,
      metis of_int_less_iff of_int_numeral of_int_power)

lemma ilog2_bounds:
  assumes "0 < a"
  shows "2 powi (ilog2 a) \<le> a" and "a < 2 powi (ilog2 a + 1)"
proof -
  have "2 powi (ilog2 a) \<le> a \<and> a < 2 powi (ilog2 a + 1)"
  proof (cases "1 \<le> a")
    case True
    define n where "n = \<lfloor>a\<rfloor>"
    have n: "0 < n" "of_int n \<le> a" "a < of_int (n + 1)"
      using True by (simp_all add: n_def) linarith+
    define k where "k = bitlen n - 1"
    have bb: "0 < bitlen n" "2 ^ nat k \<le> n" "n < 2 ^ nat (bitlen n)"
      using bitlen_bounds[OF n(1)] by (simp_all add: k_def)
    have k0: "0 \<le> k" and bk: "nat (bitlen n) = nat k + 1"
      using bb(1) by (simp_all add: k_def)
    have il: "ilog2 a = k"
      using True by (simp add: ilog2_def k_def n_def)
    have lo: "(2::rat) powi k \<le> a"
    proof -
      have "(2::rat) ^ nat k \<le> a"
        using of_int_pow2(1)[OF bb(2)] n(2) by linarith
      then show ?thesis
        using k0 by (simp add: power_int_nonneg_exp)
    qed
    have hi: "a < (2::rat) powi (k + 1)"
    proof -
      have "n + 1 \<le> 2 ^ (nat k + 1)"
        using bb(3) bk by simp
      then have "a < 2 ^ (nat k + 1)"
        using of_int_pow2(2)[of "n + 1" "nat k + 1"] n(3) by linarith
      moreover have "nat (k + 1) = nat k + 1"
        using k0 by simp
      ultimately show ?thesis
        using k0 by (simp add: power_int_nonneg_exp)
    qed
    show ?thesis
      using lo hi by (simp add: il)
  next
    case False
    define c where "c = \<lceil>1 / a\<rceil> - 1"
    have inv: "1 < 1 / a"
      using False assms by simp
    have c: "0 < c" "of_int c < 1 / a" "1 / a \<le> of_int (c + 1)"
      using inv by (simp_all add: c_def) linarith+
    define b where "b = bitlen c"
    have bb: "0 < b" "2 ^ nat (b - 1) \<le> c" "c < 2 ^ nat b"
      using bitlen_bounds[OF c(1)] by (simp_all add: b_def)
    have il: "ilog2 a = - b"
      using False by (simp add: ilog2_def b_def c_def)
    have up: "1 / a \<le> 2 ^ nat b"
    proof -
      have "c + 1 \<le> 2 ^ nat b"
        using bb(3) by simp
      then show ?thesis
        using of_int_pow2(2)[of "c + 1" "nat b"] c(3) by linarith
    qed
    have dn: "2 ^ nat (b - 1) < 1 / a"
    proof -
      show ?thesis
        using of_int_pow2(1)[OF bb(2)] c(2) by linarith
    qed
    have lo: "(2::rat) powi (- b) \<le> a"
    proof -
      have "1 / 2 ^ nat b \<le> a"
        using up assms by (simp add: field_simps)
      then show ?thesis
        using bb(1) by (simp add: power_int_def power_one_over inverse_eq_divide)
    qed
    have hi: "a < (2::rat) powi (- b + 1)"
    proof -
      have "a < 1 / 2 ^ nat (b - 1)"
        using dn assms by (simp add: field_simps)
      moreover have "(2::rat) powi (- b + 1) = 1 / 2 ^ nat (b - 1)"
        using bb(1) by (cases "b = 1") (simp_all add: power_int_def power_one_over inverse_eq_divide)
      ultimately show ?thesis
        by simp
    qed
    show ?thesis
      using lo hi by (simp add: il)
  qed
  then show "2 powi (ilog2 a) \<le> a" and "a < 2 powi (ilog2 a + 1)"
    by simp_all
qed


lemma powi2_le_imp: "(2::rat) powi m \<le> 2 powi n \<Longrightarrow> m \<le> n"
  using power_int_strict_increasing[of n m "2::rat"] by (cases "m \<le> n") simp_all

text \<open>
  The binary64 numbers: \<open>m * 2^e\<close> with a mantissa of at most 53 bits and \<open>e\<close> not below
  \<open>-1074\<close>, under the overflow threshold. Rounding leaves each as it is.
\<close>

lemma round_f64_representable:
  assumes m: "0 < m" "m \<le> 2 ^ 53" and e: "- 1074 \<le> e"
    and r: "r = of_int m * 2 powi e" and small: "r < 2 powi 1024"
  shows "round_f64 r = Finite r"
proof -
  have rpos: "0 < r"
    using m(1) by (simp add: r)
  define L where "L = ilog2 r"
  define e' where "e' = max (L - 52) (- 1074)"
  have Lb: "2 powi L \<le> r" "r < 2 powi (L + 1)"
    using ilog2_bounds[OF rpos] by (simp_all add: L_def)
  have mr: "(of_int m :: rat) \<le> 2 ^ 53" "(1::rat) \<le> of_int m"
    using m of_int_pow2(2)[OF m(2)] by simp_all
  have rle: "r \<le> 2 powi (e + 53)"
  proof -
    have "r \<le> 2 ^ 53 * 2 powi e"
      unfolding r using mr(1) by (intro mult_right_mono) simp_all
    also have "\<dots> = 2 powi (e + 53)"
      by (simp add: power_int_add)
    finally show ?thesis .
  qed
  have "(2::rat) powi L \<le> 2 powi (e + 53)"
    using Lb(1) rle by linarith
  then have Le: "L \<le> e + 53"
    by (rule powi2_le_imp)
  obtain z :: int where z: "r / 2 powi e' = of_int z"
  proof (cases "e' \<le> e")
    case True
    have "r / 2 powi e' = of_int m * 2 powi (e - e')"
      by (simp add: r power_int_diff)
    also have "\<dots> = of_int (m * 2 ^ nat (e - e'))"
      using True by (simp add: power_int_nonneg_exp)
    finally show ?thesis
      using that by blast
  next
    case False
    then have "e' = L - 52" "e < L - 52"
      using e by (simp_all add: e'_def max_def split: if_splits)
    then have L: "L = e + 53" and e1: "e' = e + 1"
      using Le by simp_all
    have "2 powi (e + 53) \<le> r"
      using Lb(1) by (simp add: L)
    then have "r = 2 powi (e + 53)"
      using rle by simp
    moreover have "(2::rat) powi (e + 53) = 2 powi (e + 1) * 2 ^ 52"
      using power_int_add[of "2::rat" "e + 1" 52] by (simp add: add.commute)
    ultimately have "r / 2 powi e' = of_int (2 ^ 52)"
      by (simp add: e1)
    then show ?thesis
      using that by blast
  qed
  have "(2::rat) powi e' \<noteq> 0"
    by simp
  then have "of_int z * 2 powi e' = r"
    using z by (simp add: field_simps)
  then have rb: "of_int (round_half_even (r / pow2 e')) * pow2 e' = r"
    by (simp add: pow2_powi z round_half_even_int)
  have "\<not> pow2 1024 \<le> r"
    using small by (simp add: pow2_powi)
  then show ?thesis
    using rpos rb by (simp add: round_f64_def Let_def L_def[symmetric] e'_def[symmetric])
qed


lemma round_half_even_ge: "of_int z \<le> x \<Longrightarrow> z \<le> round_half_even x"
  by (simp add: round_half_even_def Let_def le_floor_iff) linarith

lemma round_half_even_le: "x \<le> of_int z \<Longrightarrow> round_half_even x \<le> z"
proof (cases "x = of_int z")
  case True
  then show ?thesis by (simp add: round_half_even_int)
next
  case False
  assume "x \<le> of_int z"
  then have "x < of_int z"
    using False by simp
  then have "\<lfloor>x\<rfloor> < z"
    by (simp add: floor_less_iff)
  then show ?thesis
    by (simp add: round_half_even_def Let_def)
qed

lemma round_f64_minus: "round_f64 (- q) = f64_neg (round_f64 q)"
  by (cases "q = 0"; cases "0 < q") (auto simp: round_f64_def Let_def)

text \<open>What rounding returns is a binary64 number.\<close>

lemma round_f64_pos_wf:
  assumes "0 < q"
  shows "wf_f64 (round_f64 q)"
proof -
  define L where "L = ilog2 q"
  define e where "e = max (L - 52) (- 1074)"
  define m where "m = round_half_even (q / pow2 e)"
  define r where "r = of_int m * pow2 e"
  have rd: "round_f64 q = (if pow2 1024 \<le> r then PosInf else Finite r)"
    using assms by (simp add: round_f64_def Let_def L_def e_def m_def r_def)
  show ?thesis
  proof (cases "pow2 1024 \<le> r")
    case True
    then show ?thesis by (simp add: rd wf_f64_def)
  next
    case False
    have e: "- 1074 \<le> e" "L - 52 \<le> e"
      by (simp_all add: e_def)
    have x0: "0 \<le> q / pow2 e"
      using assms by (simp add: pow2_powi)
    have m0: "0 \<le> m"
      using round_half_even_ge[of 0 "q / pow2 e"] x0 by (simp add: m_def)
    have "q < 2 powi (L + 1)"
      using ilog2_bounds(2)[OF assms] by (simp add: L_def)
    also have "\<dots> \<le> 2 powi (e + 53)"
      using e(2) by (intro power_int_increasing) simp_all
    also have "\<dots> = 2 powi e * 2 ^ 53"
      using power_int_add[of "2::rat" e 53] by simp
    finally have "q / pow2 e \<le> of_int (2 ^ 53)"
      by (simp add: pow2_powi field_simps)
    then have m53: "m \<le> 2 ^ 53"
      unfolding m_def by (rule round_half_even_le)
    have "round_f64 r = Finite r"
    proof (cases "m = 0")
      case True
      then show ?thesis by (simp add: r_def round_f64_def)
    next
      case nz: False
      show ?thesis
      proof (rule round_f64_representable[of m e])
        show "0 < m" using m0 nz by simp
        show "m \<le> 2 ^ 53" by (rule m53)
        show "- 1074 \<le> e" by (rule e(1))
        show "r = of_int m * 2 powi e" by (simp add: r_def pow2_powi)
        show "r < 2 powi 1024" using False by (simp add: pow2_powi)
      qed
    qed
    then show ?thesis
      using False by (simp add: rd wf_f64_def)
  qed
qed

lemma wf_f64_neg: "wf_f64 (f64_neg x) = wf_f64 x"
proof (cases x)
  case (Finite q)
  have "round_f64 (- q) = Finite (- q) \<longleftrightarrow> round_f64 q = Finite q"
    by (cases "round_f64 q") (simp_all add: round_f64_minus)
  then show ?thesis
    by (simp add: Finite wf_f64_def)
qed (simp_all add: wf_f64_def)

lemma round_f64_wf: "wf_f64 (round_f64 q)"
proof (cases "0 < q")
  case True
  then show ?thesis by (rule round_f64_pos_wf)
next
  case False
  show ?thesis
  proof (cases "q = 0")
    case True
    then show ?thesis by (simp add: round_f64_def wf_f64_def)
  next
    case nz: False
    then have "0 < - q"
      using False by simp
    then have "wf_f64 (round_f64 (- q))"
      by (rule round_f64_pos_wf)
    then show ?thesis
      by (simp add: round_f64_minus wf_f64_neg)
  qed
qed

lemma f64_add_wf: "wf_f64 (f64_add x y)"
  by (cases x; cases y) (simp_all add: round_f64_wf, simp_all add: wf_f64_def)

lemma f64_sub_wf: "wf_f64 (f64_sub x y)"
  by (simp add: f64_sub_def f64_add_wf)

text \<open>
  Whole numbers of magnitude up to \<open>2^53\<close> are binary64 numbers. The balances \<^verbatim>\<open>NewAccount\<close>
  assigns, \<^verbatim>\<open>float64(rand.Intn(1000000))\<close>, are such.
\<close>

lemma round_f64_int:
  assumes "\<bar>n\<bar> \<le> 2 ^ 53"
  shows "round_f64 (of_int n) = Finite (of_int n)"
proof -
  have pos: "round_f64 (of_int k) = Finite (of_int k)" if k: "0 < k" "k \<le> 2 ^ 53" for k
  proof (rule round_f64_representable[of k 0])
    have "(of_int k :: rat) \<le> 2 ^ 53"
      by (rule of_int_pow2(2)[OF k(2)])
    also have "(2::rat) ^ 53 < 2 ^ 1024"
      by (rule power_strict_increasing) simp_all
    finally show "(of_int k :: rat) < 2 powi 1024"
      by simp
  qed (use k in simp_all)
  show ?thesis
  proof (cases "0 < n")
    case True
    then show ?thesis
      using pos[of n] assms by simp
  next
    case False
    show ?thesis
    proof (cases "n = 0")
      case True
      then show ?thesis by (simp add: round_f64_def)
    next
      case nz: False
      then have "round_f64 (of_int (- n)) = Finite (of_int (- n))"
        using False assms by (intro pos) simp_all
      then have "f64_neg (round_f64 (of_int n)) = Finite (- of_int n)"
        by (simp add: round_f64_minus)
      then show ?thesis
        by (cases "round_f64 (of_int n)") simp_all
    qed
  qed
qed

lemma wf_f64_int: "\<bar>n\<bar> \<le> 2 ^ 53 \<Longrightarrow> wf_f64 (Finite (of_int n))"
  by (simp add: wf_f64_def round_f64_int)

lemma exact_sub_int:
  "\<bar>m - n\<bar> \<le> 2 ^ 53 \<Longrightarrow> exact_sub (Finite (of_int m)) (Finite (of_int n))"
  using round_f64_int[of "m - n"] by (simp add: exact_sub_def f64_sub_def)

lemma exact_add_int:
  "\<bar>m + n\<bar> \<le> 2 ^ 53 \<Longrightarrow> exact_add (Finite (of_int m)) (Finite (of_int n))"
  using round_f64_int[of "m + n"] by (simp add: exact_add_def)

section \<open>Properties of the store operations\<close>

lemma available_simps:
  "beginErr available = None" "stmtErr available n = None" "commitErr available = None"
  by (simp_all add: available_def)

lemma filter_update:
  "filter (\<lambda>r. Account.IBAN r = i)
     (map (\<lambda>r. if Account.IBAN r = j then r\<lparr>Balance := b\<rparr> else r) rows) =
   (if i = j then map (\<lambda>r. r\<lparr>Balance := b\<rparr>) (filter (\<lambda>r. Account.IBAN r = i) rows)
    else filter (\<lambda>r. Account.IBAN r = i) rows)"
  by (induction rows) auto

lemma f64_le_not_gt: "f64_le x y \<Longrightarrow> \<not> f64_gt x y"
  by (cases x; cases y) auto

lemma balanceOf_Some:
  "balanceOf s i = Some b \<Longrightarrow>
   \<exists>r rs. filter (\<lambda>r. Account.IBAN r = i) (db s) = r # rs \<and> Balance r = b"
  by (auto simp: balanceOf_def split: list.splits)

lemma balanceOf_None:
  "balanceOf s i = None \<Longrightarrow> filter (\<lambda>r. Account.IBAN r = i) (db s) = []"
  by (auto simp: balanceOf_def split: list.splits)

lemma balanceOf_update:
  "balanceOf (s\<lparr>db := map (\<lambda>r. if Account.IBAN r = j then r\<lparr>Balance := b\<rparr> else r) rows\<rparr>) i =
   (if i = j then map_option (\<lambda>_. b) (balanceOf (s\<lparr>db := rows\<rparr>) i)
    else balanceOf (s\<lparr>db := rows\<rparr>) i)"
  by (auto simp: balanceOf_def filter_update split: list.splits)

lemma balanceOf_db_same: "balanceOf (s\<lparr>db := db s\<rparr>) i = balanceOf s i"
  by (simp add: balanceOf_def)

text \<open>Every return with an error leaves the store as it was: the transaction is rolled back.\<close>

lemma TransferFunds_error_unchanged:
  "fst (TransferFunds drv s f t a) \<noteq> None \<Longrightarrow> snd (TransferFunds drv s f t a) = s"
  by (auto simp: TransferFunds_def split: option.splits prod.splits)

text \<open>With the store available, a transfer that passes the comparison runs all four statements.\<close>

lemma transferTx_ok:
  assumes "balanceOf s f = Some sb" and "balanceOf s t = Some tb" and "\<not> f64_gt a sb"
  shows "transferTx available (Begin s) f t a =
    (None,
     \<lparr>tx_rows =
        map (\<lambda>r. if Account.IBAN r = t
                  then r\<lparr>Balance := f64_add (if t = f then f64_sub sb a else tb) a\<rparr> else r)
          (map (\<lambda>r. if Account.IBAN r = f then r\<lparr>Balance := f64_sub sb a\<rparr> else r) (db s)),
      tx_locks = [f, t], tx_stmts = 4\<rparr>)"
proof -
  obtain r rs where r: "filter (\<lambda>r. Account.IBAN r = f) (db s) = r # rs" "Balance r = sb"
    using balanceOf_Some[OF assms(1)] by blast
  obtain u us where u: "filter (\<lambda>r. Account.IBAN r = t) (db s) = u # us" "Balance u = tb"
    using balanceOf_Some[OF assms(2)] by blast
  show ?thesis
    using r u assms(3)
    by (simp add: transferTx_def lockAccount_def updateBalance_def Begin_def available_simps
        filter_update Let_def numeral_eq_Suc)
qed

lemma TransferFunds_commit:
  assumes "balanceOf s f = Some sb" and "balanceOf s t = Some tb" and "\<not> f64_gt a sb"
  shows "fst (TransferFunds available s f t a) = None"
    and "balanceOf (snd (TransferFunds available s f t a)) i =
         (if i = t then Some (f64_add (if t = f then f64_sub sb a else tb) a)
          else if i = f then Some (f64_sub sb a)
          else balanceOf s i)"
proof -
  have tf: "TransferFunds available s f t a =
    (None, s\<lparr>db :=
        map (\<lambda>r. if Account.IBAN r = t
                  then r\<lparr>Balance := f64_add (if t = f then f64_sub sb a else tb) a\<rparr> else r)
          (map (\<lambda>r. if Account.IBAN r = f then r\<lparr>Balance := f64_sub sb a\<rparr> else r) (db s))\<rparr>)"
    by (simp add: TransferFunds_def transferTx_ok[OF assms] available_simps)
  show "fst (TransferFunds available s f t a) = None"
    by (simp add: tf)
  show "balanceOf (snd (TransferFunds available s f t a)) i =
         (if i = t then Some (f64_add (if t = f then f64_sub sb a else tb) a)
          else if i = f then Some (f64_sub sb a)
          else balanceOf s i)"
    using assms(1,2) by (simp add: tf balanceOf_update balanceOf_db_same del: map_map)
qed

text \<open>The comparison fails: whatever the driver does, the transfer returns an error.\<close>

lemma TransferFunds_insufficient:
  assumes "balanceOf s f = Some sb" and "f64_gt a sb"
  shows "fst (TransferFunds drv s f t a) \<noteq> None"
    and "TransferFunds available s f t a = (Some BalanceNotSufficient, s)"
proof -
  obtain r rs where r: "filter (\<lambda>r. Account.IBAN r = f) (db s) = r # rs" "Balance r = sb"
    using balanceOf_Some[OF assms(1)] by blast
  show "fst (TransferFunds drv s f t a) \<noteq> None"
    using r assms(2)
    by (simp add: TransferFunds_def transferTx_def lockAccount_def Begin_def Let_def
        split: option.splits)
  show "TransferFunds available s f t a = (Some BalanceNotSufficient, s)"
    using r assms(2)
    by (simp add: TransferFunds_def transferTx_def lockAccount_def Begin_def Let_def
        available_simps)
qed

text \<open>A routing id that resolves to no row: whatever the driver does, an error.\<close>

lemma TransferFunds_missing:
  assumes "balanceOf s f = None \<or> balanceOf s t = None"
  shows "fst (TransferFunds drv s f t a) \<noteq> None"
proof -
  have "filter (\<lambda>r. Account.IBAN r = f) (db s) = [] \<or> filter (\<lambda>r. Account.IBAN r = t) (db s) = []"
    using assms balanceOf_None by blast
  then show ?thesis
    by (auto simp: TransferFunds_def transferTx_def lockAccount_def updateBalance_def
        Begin_def Let_def filter_update split: option.splits list.splits)
qed

lemma TransferFunds_missing_error:
  "fst (TransferFunds available s f t a) =
     (case balanceOf s f of
        None \<Rightarrow> Some ErrNoRows
      | Some sb \<Rightarrow>
          if f64_gt a sb then Some BalanceNotSufficient
          else (case balanceOf s t of None \<Rightarrow> Some ErrNoRows | Some tb \<Rightarrow> None))"
  by (auto simp: TransferFunds_def transferTx_def lockAccount_def updateBalance_def
      Begin_def Let_def filter_update available_simps balanceOf_def split: option.splits list.splits)

lemma lockOrder_available:
  "lockOrder available s f t a =
     (case balanceOf s f of
        None \<Rightarrow> []
      | Some sb \<Rightarrow>
          if f64_gt a sb then [f]
          else (case balanceOf s t of None \<Rightarrow> [f] | Some tb \<Rightarrow> [f, t]))"
  by (auto simp: lockOrder_def transferTx_def lockAccount_def updateBalance_def
      Begin_def Let_def filter_update available_simps balanceOf_def split: option.splits list.splits)

text \<open>Adding or subtracting zero leaves a well-formed value as it is.\<close>

lemma f64_add_zero: "wf_f64 x \<Longrightarrow> f64_add x (Finite 0) = x"
  by (cases x) (simp_all add: wf_f64_def)

lemma f64_sub_zero: "wf_f64 x \<Longrightarrow> f64_sub x (Finite 0) = x"
  by (cases x) (simp_all add: wf_f64_def f64_sub_def)

text \<open>Where routing ids are unique, writing a row's own balance changes nothing.\<close>

lemma update_same:
  "(\<And>r. r \<in> set rows \<Longrightarrow> Account.IBAN r = j \<Longrightarrow> Balance r = b) \<Longrightarrow>
   map (\<lambda>r. if Account.IBAN r = j then r\<lparr>Balance := b\<rparr> else r) rows = rows"
  by (induction rows) auto

lemma unique_row:
  "distinct (map Account.IBAN rows) \<Longrightarrow>
   filter (\<lambda>r. Account.IBAN r = j) rows = x # xs \<Longrightarrow>
   r \<in> set rows \<Longrightarrow> Account.IBAN r = j \<Longrightarrow> r = x"
proof (induction rows)
  case Nil
  then show ?case by simp
next
  case (Cons y ys)
  show ?case
  proof (cases "Account.IBAN y = j")
    case True
    then have "x = y"
      using Cons.prems(2) by simp
    moreover have "r \<notin> set ys"
      using Cons.prems(1,4) True by (auto simp: image_iff)
    ultimately show ?thesis
      using Cons.prems(3) by simp
  next
    case False
    then show ?thesis
      using Cons by auto
  qed
qed

lemma update_own_balance:
  assumes "distinct (map Account.IBAN (db s))" and "balanceOf s j = Some b"
  shows "map (\<lambda>r. if Account.IBAN r = j then r\<lparr>Balance := b\<rparr> else r) (db s) = db s"
proof -
  obtain x xs where x: "filter (\<lambda>r. Account.IBAN r = j) (db s) = x # xs" "Balance x = b"
    using balanceOf_Some[OF assms(2)] by blast
  show ?thesis
    using unique_row[OF assms(1) x(1)] x(2) by (intro update_same) auto
qed

text \<open>
  Whatever a transfer writes is a binary64 number, so a store of binary64 balances stays
  one, whether the transfer commits or not.
\<close>

lemma updateBalance_wf:
  "wf_f64 b \<Longrightarrow> list_all (\<lambda>r. wf_f64 (Balance r)) (tx_rows tx) \<Longrightarrow>
   list_all (\<lambda>r. wf_f64 (Balance r)) (tx_rows (snd (updateBalance drv tx iban b)))"
  by (auto simp: updateBalance_def Let_def list_all_iff split: option.splits)

lemma lockAccount_rows: "tx_rows (snd (lockAccount drv tx iban)) = tx_rows tx"
  by (simp add: lockAccount_def Let_def split: option.splits list.splits)

lemma transferTx_wf:
  assumes "list_all (\<lambda>r. wf_f64 (Balance r)) (tx_rows tx)"
  shows "list_all (\<lambda>r. wf_f64 (Balance r)) (tx_rows (snd (transferTx drv tx f t a)))"
proof -
  note wf = updateBalance_wf[OF f64_sub_wf] updateBalance_wf[OF f64_add_wf]
  show ?thesis
    using assms lockAccount_rows[of drv tx f]
    by (auto simp: transferTx_def split: prod.splits sum.splits option.splits)
      (metis lockAccount_rows snd_conv wf)+
qed

lemma TransferFunds_wf: "wf_store s \<Longrightarrow> wf_store (snd (TransferFunds drv s f t a))"
  using transferTx_wf[of "Begin s" drv f t a]
  by (auto simp: TransferFunds_def wf_store_def Begin_def split: option.splits prod.splits)

text \<open>Sums and differences that stay at or above zero.\<close>

lemma round_f64_nonneg: "0 \<le> q \<Longrightarrow> nonneg (round_f64 q)"
proof (cases "q = 0")
  case True
  then show ?thesis by (simp add: round_f64_def nonneg_def)
next
  case False
  assume "0 \<le> q"
  then have q: "0 < q"
    using False by simp
  then have "0 \<le> q / pow2 (max (ilog2 q - 52) (- 1074))"
    by (simp add: pow2_powi)
  then have "0 \<le> round_half_even (q / pow2 (max (ilog2 q - 52) (- 1074)))"
    using round_half_even_ge[of 0] by simp
  then have "0 \<le> of_int (round_half_even (q / pow2 (max (ilog2 q - 52) (- 1074)))) *
      pow2 (max (ilog2 q - 52) (- 1074))"
    by (simp add: pow2_powi)
  then show ?thesis
    using q by (simp add: round_f64_def Let_def nonneg_def)
qed

lemma f64_sub_nonneg:
  assumes "nonneg sb" and "f64_le (Finite 0) a" and "\<not> f64_gt a sb"
  shows "nonneg (f64_sub sb a)"
proof (cases sb)
  case (Finite p)
  show ?thesis
  proof (cases a)
    case a: (Finite q)
    have "0 \<le> p + - q"
      using assms(3) by (simp add: Finite a)
    then show ?thesis
      unfolding Finite a f64_sub_def f64_neg.simps f64_add.simps by (rule round_f64_nonneg)
  qed (use assms Finite in \<open>simp_all add: nonneg_def f64_sub_def\<close>)
qed (use assms in \<open>cases a; simp add: nonneg_def f64_sub_def\<close>)+

lemma f64_add_nonneg:
  assumes "nonneg tb" and "f64_le (Finite 0) a"
  shows "nonneg (f64_add tb a)"
proof (cases tb)
  case (Finite p)
  show ?thesis
  proof (cases a)
    case a: (Finite q)
    have "0 \<le> p + q"
      using assms by (simp add: Finite a nonneg_def)
    then show ?thesis
      unfolding Finite a f64_add.simps by (rule round_f64_nonneg)
  qed (use assms Finite in \<open>simp_all add: nonneg_def\<close>)
qed (use assms in \<open>cases a; simp add: nonneg_def\<close>)+

lemma lockAccount_nonneg:
  assumes "lockAccount drv tx iban = (Inr acc, tx')"
    and "list_all (\<lambda>r. nonneg (Balance r)) (tx_rows tx)"
  shows "nonneg (Balance acc)" and "tx_rows tx' = tx_rows tx"
proof -
  obtain r rs where r: "filter (\<lambda>r. Account.IBAN r = iban) (tx_rows tx) = r # rs"
    and acc: "Balance acc = Balance r" and tx': "tx_rows tx' = tx_rows tx"
    using assms(1)
    by (auto simp: lockAccount_def Let_def split: option.splits list.splits)
  have "r \<in> set (filter (\<lambda>r. Account.IBAN r = iban) (tx_rows tx))"
    by (simp add: r)
  then have "r \<in> set (tx_rows tx)"
    by simp
  then show "nonneg (Balance acc)"
    using assms(2) by (simp add: acc list_all_iff)
  show "tx_rows tx' = tx_rows tx"
    by (rule tx')
qed

lemma updateBalance_nonneg:
  "nonneg b \<Longrightarrow> list_all (\<lambda>r. nonneg (Balance r)) (tx_rows tx) \<Longrightarrow>
   list_all (\<lambda>r. nonneg (Balance r)) (tx_rows (snd (updateBalance drv tx iban b)))"
  by (auto simp: updateBalance_def Let_def list_all_iff split: option.splits)

lemma transferTx_nonneg:
  assumes rows: "list_all (\<lambda>r. nonneg (Balance r)) (tx_rows tx)"
    and a: "f64_le (Finite 0) a"
  shows "list_all (\<lambda>r. nonneg (Balance r)) (tx_rows (snd (transferTx drv tx f t a)))"
proof (cases "lockAccount drv tx f")
  case (Pair res1 tx1)
  show ?thesis
  proof (cases res1)
    case (Inl err)
    then show ?thesis
      using Pair rows lockAccount_rows[of drv tx f] by (simp add: transferTx_def)
  next
    case (Inr fromAccount)
    note l1 = lockAccount_nonneg[OF Pair[unfolded Inr] rows]
    show ?thesis
    proof (cases "f64_gt a (Balance fromAccount)")
      case True
      then show ?thesis
        using Pair Inr rows l1 by (simp add: transferTx_def)
    next
      case False
      define tx2 where "tx2 = snd (updateBalance drv tx1 f (f64_sub (Balance fromAccount) a))"
      have rows2: "list_all (\<lambda>r. nonneg (Balance r)) (tx_rows tx2)"
        unfolding tx2_def using rows l1 f64_sub_nonneg[OF l1(1) a False]
        by (intro updateBalance_nonneg) simp_all
      show ?thesis
      proof (cases "updateBalance drv tx1 f (f64_sub (Balance fromAccount) a)")
        case u: (Pair e2 tx2')
        have tx2': "tx2' = tx2"
          by (simp add: tx2_def u)
        show ?thesis
        proof (cases e2)
          case (Some err)
          then show ?thesis
            using Pair Inr False u rows2 by (simp add: transferTx_def tx2')
        next
          case None
          show ?thesis
          proof (cases "lockAccount drv tx2 t")
            case l: (Pair res3 tx3)
            show ?thesis
            proof (cases res3)
              case (Inl err)
              then show ?thesis
                using Pair Inr False u None l rows2 lockAccount_rows[of drv tx2 t]
                by (simp add: transferTx_def tx2')
            next
              case r3: (Inr toAccount)
              note l3 = lockAccount_nonneg[OF l[unfolded r3] rows2]
              have "list_all (\<lambda>r. nonneg (Balance r))
                  (tx_rows (snd (updateBalance drv tx3 t (f64_add (Balance toAccount) a))))"
                using rows2 l3 f64_add_nonneg[OF l3(1) a]
                by (intro updateBalance_nonneg) simp_all
              then show ?thesis
                using Pair Inr False u None l r3 by (simp add: transferTx_def tx2')
            qed
          qed
        qed
      qed
    qed
  qed
qed

text \<open>
  For an amount that is not negative, the comparison does what it is there for: no balance
  goes below zero.
\<close>

lemma TransferFunds_nonneg:
  "nonneg_store s \<Longrightarrow> f64_le (Finite 0) a \<Longrightarrow> nonneg_store (snd (TransferFunds drv s f t a))"
  using transferTx_nonneg[of "Begin s" a drv f t]
  by (auto simp: TransferFunds_def nonneg_store_def Begin_def split: option.splits prod.splits)

text \<open>Rounding at the values the examples use.\<close>

lemma round_f64_1: "round_f64 1 = Finite 1"
  using round_f64_int[of 1] by simp

lemma round_f64_70: "round_f64 70 = Finite 70"
  using round_f64_int[of 70] by simp

lemma round_f64_80: "round_f64 80 = Finite 80"
  using round_f64_int[of 80] by simp

lemma round_f64_2p53_1: "round_f64 9007199254740993 = Finite 9007199254740992"
  by code_simp

lemma round_f64_2p53_2: "round_f64 9007199254740994 = Finite 9007199254740994"
  by code_simp

lemma round_f64_50: "round_f64 50 = Finite 50"
  using round_f64_int[of 50] by simp

lemma round_f64_100: "round_f64 100 = Finite 100"
  using round_f64_int[of 100] by simp

lemma round_f64_200: "round_f64 200 = Finite 200"
  using round_f64_int[of 200] by simp

lemma round_f64_m50: "round_f64 (- 50) = Finite (- 50)"
  using round_f64_int[of "- 50"] by simp

text \<open>
  Decimal amounts as the JSON decoder reads them: the float64 nearest to 0.1, to 58.79 and
  to 17.56, and the sums and differences of the examples.
\<close>

lemma round_f64_tenth: "round_f64 (1 / 10) = Finite (3602879701896397 / 36028797018963968)"
  by code_simp

lemma tenth_from_100:
  "f64_sub (Finite 100) (Finite (3602879701896397 / 36028797018963968)) =
   Finite (3514918771674317 / 35184372088832)"
  by code_simp

lemma tenth_to_50:
  "f64_add (Finite 50) (Finite (3602879701896397 / 36028797018963968)) =
   Finite (7050948166601933 / 140737488355328)"
  by code_simp

lemma round_f64_5879: "round_f64 (5879 / 100) = Finite (8273956940409733 / 140737488355328)"
  by code_simp

lemma round_f64_1756: "round_f64 (439 / 25) = Finite (4942700591039119 / 281474976710656)"
  by code_simp

lemma sub_5879_1756:
  "f64_sub (Finite (8273956940409733 / 140737488355328))
     (Finite (4942700591039119 / 281474976710656)) =
   Finite (2901303322445087 / 70368744177664)"
  by code_simp

lemma add_4123_1756:
  "f64_add (Finite (2901303322445087 / 70368744177664))
     (Finite (4942700591039119 / 281474976710656)) =
   Finite (4136978470204867 / 70368744177664)"
  by code_simp

section \<open>The claims\<close>

text \<open>
  C1, as the code has it. For distinct routing ids that both resolve, an amount with
  \<open>0 < amount\<close> and \<open>amount \<le> sourceBalance\<close>, and the store available, the transfer
  commits; afterwards the source reads the float64 difference \<open>sourceBalance - amount\<close> and
  the destination the float64 sum \<open>destBalance + amount\<close>. When neither operation rounds,
  the sum of the two balances is what it was, in the rationals and as Go adds them.
  Whole numbers do not round when the difference and the sum themselves have a magnitude
  of at most \<open>2^53\<close> (\<open>exact_sub_int\<close>, \<open>exact_add_int\<close>); a bound on the operands alone is
  not enough, as the sum \<open>2^53 + 1\<close> shows.
\<close>

theorem transfer_moves_amount:
  assumes "fromIban \<noteq> toIban"
    and "balanceOf s fromIban = Some sourceBalance"
    and "balanceOf s toIban = Some destBalance"
    and "f64_gt amount (Finite 0)"
    and "f64_le amount sourceBalance"
  shows "fst (TransferFunds available s fromIban toIban amount) = None
       \<and> balanceOf (snd (TransferFunds available s fromIban toIban amount)) fromIban =
           Some (f64_sub sourceBalance amount)
       \<and> balanceOf (snd (TransferFunds available s fromIban toIban amount)) toIban =
           Some (f64_add destBalance amount)
       \<and> (exact_sub sourceBalance amount \<and> exact_add destBalance amount \<longrightarrow>
            exact_total (snd (TransferFunds available s fromIban toIban amount)) fromIban toIban =
              exact_total s fromIban toIban
          \<and> float_total (snd (TransferFunds available s fromIban toIban amount)) fromIban toIban =
              float_total s fromIban toIban)"
proof -
  let ?s' = "snd (TransferFunds available s fromIban toIban amount)"
  note c = TransferFunds_commit[OF assms(2,3) f64_le_not_gt[OF assms(5)]]
  have src: "balanceOf ?s' fromIban = Some (f64_sub sourceBalance amount)"
    using assms(1) by (simp add: c(2))
  have dst: "balanceOf ?s' toIban = Some (f64_add destBalance amount)"
    using assms(1) by (simp add: c(2))
  have "exact_total ?s' fromIban toIban = exact_total s fromIban toIban
      \<and> float_total ?s' fromIban toIban = float_total s fromIban toIban"
    if ex: "exact_sub sourceBalance amount" "exact_add destBalance amount"
  proof -
    obtain p a where pa: "sourceBalance = Finite p" "amount = Finite a"
      "f64_sub sourceBalance amount = Finite (p - a)"
      using ex(1) by (auto simp: exact_sub_def split: float64.splits)
    obtain q where q: "destBalance = Finite q" "f64_add destBalance amount = Finite (q + a)"
      using ex(2) pa(2) by (auto simp: exact_add_def split: float64.splits)
    have src': "balanceOf ?s' fromIban = Some (Finite (p - a))"
      using src pa(3) by simp
    have dst': "balanceOf ?s' toIban = Some (Finite (q + a))"
      using dst q(2) by simp
    have old: "balanceOf s fromIban = Some (Finite p)" "balanceOf s toIban = Some (Finite q)"
      using assms(2,3) pa(1) q(1) by simp_all
    show ?thesis
      by (simp add: exact_total_def float_total_def src' dst' old)
  qed
  then show ?thesis
    using c(1) src dst by blast
qed

theorem transfer_moves_amount_witness:
  "''A'' \<noteq> ''B''
   \<and> balanceOf (bank (Finite 100) (Finite 50)) ''A'' = Some (Finite 100)
   \<and> balanceOf (bank (Finite 100) (Finite 50)) ''B'' = Some (Finite 50)
   \<and> f64_gt (Finite 30) (Finite 0)
   \<and> f64_le (Finite 30) (Finite 100)
   \<and> exact_sub (Finite 100) (Finite 30)
   \<and> exact_add (Finite 50) (Finite 30)
   \<and> fst (TransferFunds available (bank (Finite 100) (Finite 50)) ''A'' ''B'' (Finite 30)) = None
   \<and> balanceOf (snd (TransferFunds available (bank (Finite 100) (Finite 50)) ''A'' ''B'' (Finite 30)))
         ''A'' = Some (Finite 70)
   \<and> balanceOf (snd (TransferFunds available (bank (Finite 100) (Finite 50)) ''A'' ''B'' (Finite 30)))
         ''B'' = Some (Finite 80)
   \<and> exact_total (snd (TransferFunds available (bank (Finite 100) (Finite 50)) ''A'' ''B'' (Finite 30)))
         ''A'' ''B'' = Some 150"
proof -
  have n: "''A'' \<noteq> ''B''"
    by simp
  have a: "balanceOf (bank (Finite 100) (Finite 50)) ''A'' = Some (Finite 100)"
    by (simp add: balanceOf_def bank_def account_def)
  have b: "balanceOf (bank (Finite 100) (Finite 50)) ''B'' = Some (Finite 50)"
    by (simp add: balanceOf_def bank_def account_def)
  have g: "f64_gt (Finite 30) (Finite 0)"
    by simp
  have l: "f64_le (Finite 30) (Finite 100)"
    by simp
  have sub: "f64_sub (Finite 100) (Finite 30) = Finite 70"
    by (simp add: f64_sub_def round_f64_70)
  have add: "f64_add (Finite 50) (Finite 30) = Finite 80"
    by (simp add: round_f64_80)
  have es: "exact_sub (Finite 100) (Finite 30)"
    using sub by (simp add: exact_sub_def)
  have ea: "exact_add (Finite 50) (Finite 30)"
    using add by (simp add: exact_add_def)
  have t: "exact_total (bank (Finite 100) (Finite 50)) ''A'' ''B'' = Some 150"
    by (simp add: exact_total_def a b)
  from transfer_moves_amount[OF n a b g l] es ea
  have "fst (TransferFunds available (bank (Finite 100) (Finite 50)) ''A'' ''B'' (Finite 30)) = None"
    and "balanceOf (snd (TransferFunds available (bank (Finite 100) (Finite 50)) ''A'' ''B'' (Finite 30)))
         ''A'' = Some (Finite 70)"
    and "balanceOf (snd (TransferFunds available (bank (Finite 100) (Finite 50)) ''A'' ''B'' (Finite 30)))
         ''B'' = Some (Finite 80)"
    and "exact_total (snd (TransferFunds available (bank (Finite 100) (Finite 50)) ''A'' ''B'' (Finite 30)))
         ''A'' ''B'' = Some 150"
    unfolding sub add t by blast+
  then show ?thesis
    using n a b g l es ea by blast
qed

theorem transfer_rounding_counterexample:
  "fst (TransferFunds available (bank (Finite 2) (Finite 9007199254740992)) ''A'' ''B'' (Finite 1)) = None
   \<and> balanceOf (snd (TransferFunds available (bank (Finite 2) (Finite 9007199254740992))
         ''A'' ''B'' (Finite 1))) ''A'' = Some (Finite 1)
   \<and> balanceOf (snd (TransferFunds available (bank (Finite 2) (Finite 9007199254740992))
         ''A'' ''B'' (Finite 1))) ''B'' = Some (Finite 9007199254740992)
   \<and> exact_total (snd (TransferFunds available (bank (Finite 2) (Finite 9007199254740992))
         ''A'' ''B'' (Finite 1))) ''A'' ''B'' \<noteq>
       exact_total (bank (Finite 2) (Finite 9007199254740992)) ''A'' ''B''
   \<and> float_total (snd (TransferFunds available (bank (Finite 2) (Finite 9007199254740992))
         ''A'' ''B'' (Finite 1))) ''A'' ''B'' \<noteq>
       float_total (bank (Finite 2) (Finite 9007199254740992)) ''A'' ''B''
   \<and> fst (TransferFunds available (bank (Finite 100) (Finite 50)) ''A'' ''B''
         (round_f64 (1 / 10))) = None
   \<and> exact_total (snd (TransferFunds available (bank (Finite 100) (Finite 50)) ''A'' ''B''
         (round_f64 (1 / 10)))) ''A'' ''B'' \<noteq>
       exact_total (bank (Finite 100) (Finite 50)) ''A'' ''B''"
proof -
  let ?s = "bank (Finite 2) (Finite 9007199254740992)"
  have a: "balanceOf ?s ''A'' = Some (Finite 2)"
    by (simp add: balanceOf_def bank_def account_def)
  have b: "balanceOf ?s ''B'' = Some (Finite 9007199254740992)"
    by (simp add: balanceOf_def bank_def account_def)
  have g: "\<not> f64_gt (Finite 1) (Finite 2)"
    by simp
  note c = TransferFunds_commit[OF a b g]
  have big: "fst (TransferFunds available ?s ''A'' ''B'' (Finite 1)) = None
      \<and> balanceOf (snd (TransferFunds available ?s ''A'' ''B'' (Finite 1))) ''A'' = Some (Finite 1)
      \<and> balanceOf (snd (TransferFunds available ?s ''A'' ''B'' (Finite 1))) ''B'' =
          Some (Finite 9007199254740992)
      \<and> exact_total (snd (TransferFunds available ?s ''A'' ''B'' (Finite 1))) ''A'' ''B'' \<noteq>
          exact_total ?s ''A'' ''B''
      \<and> float_total (snd (TransferFunds available ?s ''A'' ''B'' (Finite 1))) ''A'' ''B'' \<noteq>
          float_total ?s ''A'' ''B''"
    by (simp add: c a b f64_sub_def round_f64_1 round_f64_2p53_1 round_f64_2p53_2
        exact_total_def float_total_def)
  let ?u = "bank (Finite 100) (Finite 50)"
  let ?t = "Finite (3602879701896397 / 36028797018963968)"
  have a2: "balanceOf ?u ''A'' = Some (Finite 100)"
    by (simp add: balanceOf_def bank_def account_def)
  have b2: "balanceOf ?u ''B'' = Some (Finite 50)"
    by (simp add: balanceOf_def bank_def account_def)
  have g2: "\<not> f64_gt ?t (Finite 100)"
    by simp
  note d = TransferFunds_commit[OF a2 b2 g2]
  have a': "balanceOf (snd (TransferFunds available ?u ''A'' ''B'' ?t)) ''A'' =
      Some (Finite (3514918771674317 / 35184372088832))"
    unfolding d(2) tenth_from_100 by simp
  have b': "balanceOf (snd (TransferFunds available ?u ''A'' ''B'' ?t)) ''B'' =
      Some (Finite (7050948166601933 / 140737488355328))"
    unfolding d(2) by (simp only: tenth_to_50 list.inject char.inject simp_thms if_True if_False)
  have "exact_total (snd (TransferFunds available ?u ''A'' ''B'' ?t)) ''A'' ''B'' \<noteq>
      exact_total ?u ''A'' ''B''"
    unfolding exact_total_def a' b' a2 b2 by simp
  then have small: "fst (TransferFunds available ?u ''A'' ''B'' (round_f64 (1 / 10))) = None
      \<and> exact_total (snd (TransferFunds available ?u ''A'' ''B'' (round_f64 (1 / 10)))) ''A'' ''B'' \<noteq>
          exact_total ?u ''A'' ''B''"
    unfolding round_f64_tenth using d(1) by blast
  show ?thesis
    using big small by blast
qed

text \<open>
  C2. For every pair of existing accounts and every amount greater than the source
  balance, the transfer fails with the error "Balance not sufficient" and the store is
  as before: the rows the transaction worked on are discarded. The store is unchanged
  and the call fails whatever the driver does; with the store available the error is
  this one.
\<close>

theorem insufficient_funds_rejected:
  assumes "balanceOf s fromIban = Some sourceBalance"
    and "balanceOf s toIban = Some destBalance"
    and "f64_gt amount sourceBalance"
  shows "TransferFunds available s fromIban toIban amount = (Some BalanceNotSufficient, s)
       \<and> Error BalanceNotSufficient = ''Balance not sufficient''
       \<and> fst (TransferFunds drv s fromIban toIban amount) \<noteq> None
       \<and> snd (TransferFunds drv s fromIban toIban amount) = s"
  using TransferFunds_insufficient[OF assms(1,3)] TransferFunds_error_unchanged
  by simp

theorem insufficient_funds_rejected_witness:
  "balanceOf (bank (Finite 70) (Finite 80)) ''B'' = Some (Finite 80)
   \<and> balanceOf (bank (Finite 70) (Finite 80)) ''A'' = Some (Finite 70)
   \<and> f64_gt (Finite 1000) (Finite 80)
   \<and> TransferFunds available (bank (Finite 70) (Finite 80)) ''B'' ''A'' (Finite 1000) =
       (Some BalanceNotSufficient, bank (Finite 70) (Finite 80))"
proof -
  have b: "balanceOf (bank (Finite 70) (Finite 80)) ''B'' = Some (Finite 80)"
    by (simp add: balanceOf_def bank_def account_def)
  have a: "balanceOf (bank (Finite 70) (Finite 80)) ''A'' = Some (Finite 70)"
    by (simp add: balanceOf_def bank_def account_def)
  have g: "f64_gt (Finite 1000) (Finite 80)"
    by simp
  show ?thesis
    using insufficient_funds_rejected[OF b a g] b a g by simp
qed

text \<open>
  C3, as the code has it. The transfer locks the row of the source first and the row of
  the destination second, in the order of its arguments: a transfer from \<open>a\<close> to \<open>b\<close> and
  one from \<open>b\<close> to \<open>a\<close> that both reach their second lock take the two locks in opposite
  orders.
\<close>

theorem locks_in_caller_order:
  assumes "balanceOf s a = Some balanceA"
    and "balanceOf s b = Some balanceB"
    and "\<not> f64_gt x balanceA"
    and "\<not> f64_gt y balanceB"
  shows "lockOrder available s a b x = [a, b] \<and> lockOrder available s b a y = [b, a]"
  using assms by (simp add: lockOrder_available)

theorem locks_in_caller_order_witness:
  "balanceOf (bank (Finite 100) (Finite 50)) ''A'' = Some (Finite 100)
   \<and> balanceOf (bank (Finite 100) (Finite 50)) ''B'' = Some (Finite 50)
   \<and> \<not> f64_gt (Finite 30) (Finite 100)
   \<and> \<not> f64_gt (Finite 20) (Finite 50)
   \<and> lockOrder available (bank (Finite 100) (Finite 50)) ''A'' ''B'' (Finite 30) = [''A'', ''B'']
   \<and> lockOrder available (bank (Finite 100) (Finite 50)) ''B'' ''A'' (Finite 20) = [''B'', ''A'']"
proof -
  have a: "balanceOf (bank (Finite 100) (Finite 50)) ''A'' = Some (Finite 100)"
    by (simp add: balanceOf_def bank_def account_def)
  have b: "balanceOf (bank (Finite 100) (Finite 50)) ''B'' = Some (Finite 50)"
    by (simp add: balanceOf_def bank_def account_def)
  have x: "\<not> f64_gt (Finite 30) (Finite 100)"
    by simp
  have y: "\<not> f64_gt (Finite 20) (Finite 50)"
    by simp
  show ?thesis
    using locks_in_caller_order[OF a b x y] a b x y by blast
qed

theorem lock_order_counterexample:
  "lockOrder available (bank (Finite 100) (Finite 50)) ''A'' ''B'' (Finite 30) = [''A'', ''B'']
   \<and> lockOrder available (bank (Finite 100) (Finite 50)) ''B'' ''A'' (Finite 20) = [''B'', ''A'']
   \<and> lockOrder available (bank (Finite 100) (Finite 50)) ''A'' ''B'' (Finite 30) \<noteq>
       lockOrder available (bank (Finite 100) (Finite 50)) ''B'' ''A'' (Finite 20)"
  by (simp add: lockOrder_available balanceOf_def bank_def account_def)

text \<open>
  C4, as the code has it. Neither \<^verbatim>\<open>handleTransfer\<close> nor \<^verbatim>\<open>TransferFunds\<close> looks at the
  sign of the amount. A transfer of zero between routing ids that resolve to balances that
  are binary64 numbers, from a source balance that is not negative and with the store
  available, commits, and every routing id reads the balance it read before. Where
  routing ids are unique the store is as it was.
\<close>

theorem zero_amount_commits:
  assumes "balanceOf s fromIban = Some sourceBalance"
    and "balanceOf s toIban = Some destBalance"
    and "wf_f64 sourceBalance"
    and "wf_f64 destBalance"
    and "\<not> f64_gt (Finite 0) sourceBalance"
  shows "fst (TransferFunds available s fromIban toIban (Finite 0)) = None
       \<and> (\<forall>i. balanceOf (snd (TransferFunds available s fromIban toIban (Finite 0))) i =
               balanceOf s i)
       \<and> (distinct (map Account.IBAN (db s)) \<longrightarrow>
            snd (TransferFunds available s fromIban toIban (Finite 0)) = s)"
proof -
  note c = TransferFunds_commit[OF assms(1,2,5)]
  have same: "balanceOf (snd (TransferFunds available s fromIban toIban (Finite 0))) i =
      balanceOf s i" for i
    using assms(1,2,3,4) by (auto simp: c(2) f64_add_zero f64_sub_zero)
  have "snd (TransferFunds available s fromIban toIban (Finite 0)) = s"
    if d: "distinct (map Account.IBAN (db s))"
  proof -
    have u1: "map (\<lambda>r. if Account.IBAN r = fromIban
                       then r\<lparr>Balance := f64_sub sourceBalance (Finite 0)\<rparr> else r) (db s) = db s"
      unfolding f64_sub_zero[OF assms(3)] by (rule update_own_balance[OF d assms(1)])
    have u2: "map (\<lambda>r. if Account.IBAN r = toIban
                       then r\<lparr>Balance := f64_add destBalance (Finite 0)\<rparr> else r) (db s) = db s"
      unfolding f64_add_zero[OF assms(4)] by (rule update_own_balance[OF d assms(2)])
    have tb: "(if toIban = fromIban then f64_sub sourceBalance (Finite 0) else destBalance) =
        destBalance"
      using assms(1,2,3) by (auto simp: f64_sub_zero)
    have "TransferFunds available s fromIban toIban (Finite 0) =
        (None, s\<lparr>db :=
           map (\<lambda>r. if Account.IBAN r = toIban
                     then r\<lparr>Balance := f64_add (if toIban = fromIban
                       then f64_sub sourceBalance (Finite 0) else destBalance) (Finite 0)\<rparr> else r)
             (map (\<lambda>r. if Account.IBAN r = fromIban
                       then r\<lparr>Balance := f64_sub sourceBalance (Finite 0)\<rparr> else r) (db s))\<rparr>)"
      by (simp add: TransferFunds_def transferTx_ok[OF assms(1,2,5)] available_simps del: map_map)
    then show ?thesis
      unfolding tb u1 u2 by simp
  qed
  then show ?thesis
    using c(1) same by blast
qed

theorem zero_amount_commits_witness:
  "balanceOf (bank (Finite 100) (Finite 50)) ''A'' = Some (Finite 100)
   \<and> balanceOf (bank (Finite 100) (Finite 50)) ''B'' = Some (Finite 50)
   \<and> wf_f64 (Finite 100)
   \<and> wf_f64 (Finite 50)
   \<and> \<not> f64_gt (Finite 0) (Finite 100)
   \<and> distinct (map Account.IBAN (db (bank (Finite 100) (Finite 50))))
   \<and> TransferFunds available (bank (Finite 100) (Finite 50)) ''A'' ''B'' (Finite 0) =
       (None, bank (Finite 100) (Finite 50))"
proof -
  have a: "balanceOf (bank (Finite 100) (Finite 50)) ''A'' = Some (Finite 100)"
    by (simp add: balanceOf_def bank_def account_def)
  have b: "balanceOf (bank (Finite 100) (Finite 50)) ''B'' = Some (Finite 50)"
    by (simp add: balanceOf_def bank_def account_def)
  have wa: "wf_f64 (Finite 100)"
    by (simp add: wf_f64_def round_f64_100)
  have wb: "wf_f64 (Finite 50)"
    by (simp add: wf_f64_def round_f64_50)
  have g: "\<not> f64_gt (Finite 0) (Finite 100)"
    by simp
  have d: "distinct (map Account.IBAN (db (bank (Finite 100) (Finite 50))))"
    by (simp add: bank_def account_def)
  have "TransferFunds available (bank (Finite 100) (Finite 50)) ''A'' ''B'' (Finite 0) =
      (None, bank (Finite 100) (Finite 50))"
    using zero_amount_commits[OF a b wa wb g] d by (simp add: prod_eq_iff)
  then show ?thesis
    using a b wa wb g d by blast
qed

theorem zero_amount_counterexample:
  "fst (TransferFunds available (bank (Finite 100) (Finite 50)) ''A'' ''B'' (Finite 0)) = None"
  by (simp add: TransferFunds_missing_error balanceOf_def bank_def account_def)

text \<open>
  C5, as the code has it. A transfer from a routing id to itself is not rejected as such:
  with the account existing and the store available it fails exactly when the amount is
  greater than the balance, with "Balance not sufficient" and the store as before, and
  commits otherwise.
\<close>

theorem self_transfer_not_rejected:
  assumes "balanceOf s iban = Some balance"
  shows "fst (TransferFunds available s iban iban amount) =
           (if f64_gt amount balance then Some BalanceNotSufficient else None)
       \<and> (f64_gt amount balance \<longrightarrow> snd (TransferFunds available s iban iban amount) = s)"
  using assms TransferFunds_error_unchanged[of available s iban iban amount]
  by (simp add: TransferFunds_missing_error)

theorem self_transfer_not_rejected_witness:
  "balanceOf (bank (Finite 100) (Finite 50)) ''A'' = Some (Finite 100)
   \<and> f64_gt (Finite 1000) (Finite 100)
   \<and> TransferFunds available (bank (Finite 100) (Finite 50)) ''A'' ''A'' (Finite 1000) =
       (Some BalanceNotSufficient, bank (Finite 100) (Finite 50))"
proof -
  have a: "balanceOf (bank (Finite 100) (Finite 50)) ''A'' = Some (Finite 100)"
    by (simp add: balanceOf_def bank_def account_def)
  have g: "f64_gt (Finite 1000) (Finite 100)"
    by simp
  have "TransferFunds available (bank (Finite 100) (Finite 50)) ''A'' ''A'' (Finite 1000) =
      (Some BalanceNotSufficient, bank (Finite 100) (Finite 50))"
    using self_transfer_not_rejected[OF a, of "Finite 1000"] g by (simp add: prod_eq_iff)
  then show ?thesis
    using a g by blast
qed

theorem self_transfer_counterexample:
  "fst (TransferFunds available (bank (Finite 100) (Finite 50)) ''A'' ''A'' (Finite 30)) = None"
  by (simp add: TransferFunds_missing_error balanceOf_def bank_def account_def)

text \<open>
  C6 fails on the code. The comparison \<^verbatim>\<open>amount > fromAccount.Balance\<close> keeps every
  balance at or above zero for an amount that is not negative (\<open>TransferFunds_nonneg\<close>),
  and lets every negative amount pass: the source is credited and the destination debited,
  below zero here.
\<close>

theorem negative_amount_overdraws:
  "TransferFunds available (bank (Finite 100) (Finite 50)) ''A'' ''B'' (Finite (- 100)) =
     (None, bank (Finite 200) (Finite (- 50)))
   \<and> nonneg_store (bank (Finite 100) (Finite 50))
   \<and> \<not> nonneg_store (bank (Finite 200) (Finite (- 50)))"
  by (simp add: nonneg_store_def nonneg_def list_all_iff TransferFunds_def transferTx_def
      lockAccount_def updateBalance_def Begin_def available_simps bank_def account_def
      f64_sub_def round_f64_200 round_f64_m50)

text \<open>
  C7, as the code has it. When the source or the destination resolves to no row, the
  transfer returns an error and the store is as before, whatever the driver does. With
  the store available the error is \<^verbatim>\<open>sql.ErrNoRows\<close> when the source is missing, and when
  the destination is missing and the amount is not greater than the source balance; it is
  "Balance not sufficient" when the destination is missing and the amount is greater. In
  the second case the transaction had written the source's new balance, and the rollback
  discards it.
\<close>

theorem missing_account_rejected:
  assumes "balanceOf s fromIban = None \<or> balanceOf s toIban = None"
  shows "fst (TransferFunds drv s fromIban toIban amount) \<noteq> None
       \<and> snd (TransferFunds drv s fromIban toIban amount) = s
       \<and> fst (TransferFunds available s fromIban toIban amount) =
           (case balanceOf s fromIban of
              None \<Rightarrow> Some ErrNoRows
            | Some sourceBalance \<Rightarrow>
                if f64_gt amount sourceBalance then Some BalanceNotSufficient
                else Some ErrNoRows)
       \<and> (\<forall>sourceBalance. balanceOf s fromIban = Some sourceBalance
              \<and> \<not> f64_gt amount sourceBalance \<longrightarrow>
            tx_rows (snd (transferTx available (Begin s) fromIban toIban amount)) =
              map (\<lambda>r. if Account.IBAN r = fromIban
                        then r\<lparr>Balance := f64_sub sourceBalance amount\<rparr> else r) (db s))"
proof -
  have e: "fst (TransferFunds drv s fromIban toIban amount) \<noteq> None"
    by (rule TransferFunds_missing[OF assms])
  have k: "fst (TransferFunds available s fromIban toIban amount) =
           (case balanceOf s fromIban of
              None \<Rightarrow> Some ErrNoRows
            | Some sourceBalance \<Rightarrow>
                if f64_gt amount sourceBalance then Some BalanceNotSufficient
                else Some ErrNoRows)"
    using assms by (auto simp: TransferFunds_missing_error split: option.splits)
  have w: "tx_rows (snd (transferTx available (Begin s) fromIban toIban amount)) =
      map (\<lambda>r. if Account.IBAN r = fromIban
                then r\<lparr>Balance := f64_sub sourceBalance amount\<rparr> else r) (db s)"
    if sb: "balanceOf s fromIban = Some sourceBalance" and ng: "\<not> f64_gt amount sourceBalance"
    for sourceBalance
  proof -
    obtain r rs where r: "filter (\<lambda>r. Account.IBAN r = fromIban) (db s) = r # rs"
      "Balance r = sourceBalance"
      using balanceOf_Some[OF sb] by blast
    have "filter (\<lambda>r. Account.IBAN r = toIban) (db s) = []"
      using assms sb balanceOf_None by auto
    then show ?thesis
      using r ng
      by (auto simp: transferTx_def lockAccount_def updateBalance_def Begin_def Let_def
          available_simps filter_update)
  qed
  show ?thesis
    using e TransferFunds_error_unchanged[OF e] k w by blast
qed

theorem missing_account_rejected_witness:
  "balanceOf (bank (Finite 100) (Finite 50)) ''Z'' = None
   \<and> balanceOf (bank (Finite 100) (Finite 50)) ''A'' = Some (Finite 100)
   \<and> \<not> f64_gt (Finite 30) (Finite 100)
   \<and> TransferFunds available (bank (Finite 100) (Finite 50)) ''A'' ''Z'' (Finite 30) =
       (Some ErrNoRows, bank (Finite 100) (Finite 50))
   \<and> tx_rows (snd (transferTx available (Begin (bank (Finite 100) (Finite 50))) ''A'' ''Z''
        (Finite 30))) = db (bank (Finite 70) (Finite 50))"
proof -
  have z: "balanceOf (bank (Finite 100) (Finite 50)) ''Z'' = None"
    by (simp add: balanceOf_def bank_def account_def)
  have a: "balanceOf (bank (Finite 100) (Finite 50)) ''A'' = Some (Finite 100)"
    by (simp add: balanceOf_def bank_def account_def)
  have g: "\<not> f64_gt (Finite 30) (Finite 100)"
    by simp
  have m: "balanceOf (bank (Finite 100) (Finite 50)) ''A'' = None
      \<or> balanceOf (bank (Finite 100) (Finite 50)) ''Z'' = None"
    using z by simp
  note t = missing_account_rejected[OF m, of available "Finite 30"]
  have 1: "TransferFunds available (bank (Finite 100) (Finite 50)) ''A'' ''Z'' (Finite 30) =
      (Some ErrNoRows, bank (Finite 100) (Finite 50))"
    using t a g by (simp add: prod_eq_iff)
  have "tx_rows (snd (transferTx available (Begin (bank (Finite 100) (Finite 50))) ''A'' ''Z''
      (Finite 30))) =
      map (\<lambda>r. if Account.IBAN r = ''A''
                then r\<lparr>Balance := f64_sub (Finite 100) (Finite 30)\<rparr> else r)
        (db (bank (Finite 100) (Finite 50)))"
    using t a g by blast
  then have 2: "tx_rows (snd (transferTx available (Begin (bank (Finite 100) (Finite 50)))
      ''A'' ''Z'' (Finite 30))) = db (bank (Finite 70) (Finite 50))"
    by (simp add: bank_def account_def f64_sub_def round_f64_70)
  show ?thesis
    using z a g 1 2 by blast
qed

theorem missing_destination_counterexample:
  "balanceOf (bank (Finite 100) (Finite 50)) ''Z'' = None
   \<and> fst (TransferFunds available (bank (Finite 100) (Finite 50)) ''A'' ''Z'' (Finite 1000)) =
       Some BalanceNotSufficient
   \<and> fst (TransferFunds available (bank (Finite 100) (Finite 50)) ''A'' ''Z'' (Finite 1000)) \<noteq>
       Some ErrNoRows"
  by (simp add: TransferFunds_missing_error balanceOf_def bank_def account_def)

text \<open>
  C8. On the route \<^verbatim>\<open>POST /transfer\<close>, every call of \<^verbatim>\<open>Storage.TransferFunds\<close> has as its
  source the routing id of the claims that \<^verbatim>\<open>ValidateToken\<close> returns for the token of the
  \<^verbatim>\<open>Authorization\<close> header, whatever the body is and however it is decoded. Two requests
  with the same header whose bodies decode to the same destination and amount get the
  same response and leave the same store, whatever else the bodies and contexts hold.
\<close>

theorem transfer_source_from_token:
  assumes "authHeader r1 = authHeader r2"
    and "ValidateToken (splitSpace (authHeader r1) ! 1) = Inr claims"
  shows "(\<forall>call \<in> set (snd (transferRoute ValidateToken recordCall decode1 [] r1)).
            fst call = Claims.IBAN claims)
       \<and> (\<forall>call \<in> set (snd (transferRoute ValidateToken recordCall decode2 [] r2)).
            fst call = Claims.IBAN claims)
       \<and> (decode (body r1) = decode (body r2) \<longrightarrow>
            transferRoute ValidateToken transferFunds decode store r1 =
            transferRoute ValidateToken transferFunds decode store r2)"
proof -
  have calls: "\<forall>call \<in> set (snd (transferRoute ValidateToken recordCall d [] r)).
      fst call = Claims.IBAN claims"
    if "ValidateToken (splitSpace (authHeader r) ! 1) = Inr claims"
    for d :: "'a \<Rightarrow> error + TransferRequest option" and r
    using that
    by (auto simp: transferRoute_def validateTokenMiddleware_def makeHTTPHandleFunc_def
        handleTransfer_def recordCall_def Let_def split: sum.splits option.splits)
  have same: "transferRoute ValidateToken transferFunds decode store r1 =
      transferRoute ValidateToken transferFunds decode store r2"
    if "decode (body r1) = decode (body r2)"
    using that assms(1)
    by (simp add: transferRoute_def validateTokenMiddleware_def makeHTTPHandleFunc_def
        handleTransfer_def Let_def split: sum.splits option.splits)
  show ?thesis
    using calls[OF assms(2)] calls[of r2] assms same by simp
qed

theorem transfer_source_from_token_witness:
  "authHeader (request ''B'' (Finite 30) ''fromAccountIban: Z'') =
     authHeader (request ''B'' (Finite 30) [])
   \<and> acceptA (splitSpace (authHeader (request ''B'' (Finite 30) ''fromAccountIban: Z'')) ! 1) =
       Inr claimsA
   \<and> decodeFst (body (request ''B'' (Finite 30) ''fromAccountIban: Z'')) =
       decodeFst (body (request ''B'' (Finite 30) []))
   \<and> body (request ''B'' (Finite 30) ''fromAccountIban: Z'') \<noteq> body (request ''B'' (Finite 30) [])
   \<and> snd (transferRoute acceptA recordCall decodeFst []
        (request ''B'' (Finite 30) ''fromAccountIban: Z'')) = [(''A'', ''B'', Finite 30)]
   \<and> snd (transferRoute acceptA recordCall decodeFst [] (request ''B'' (Finite 30) [])) =
       [(''A'', ''B'', Finite 30)]
   \<and> Claims.IBAN claimsA = ''A''
   \<and> transferRoute acceptA (TransferFunds available) decodeFst (bank (Finite 100) (Finite 50))
        (request ''B'' (Finite 30) ''fromAccountIban: Z'') =
      transferRoute acceptA (TransferFunds available) decodeFst (bank (Finite 100) (Finite 50))
        (request ''B'' (Finite 30) [])"
proof -
  have h: "authHeader (request ''B'' (Finite 30) ''fromAccountIban: Z'') =
      authHeader (request ''B'' (Finite 30) [])"
    by (simp add: request_def)
  have v: "acceptA (splitSpace (authHeader (request ''B'' (Finite 30) ''fromAccountIban: Z'')) ! 1) =
      Inr claimsA"
    by (simp add: acceptA_def)
  have d: "decodeFst (body (request ''B'' (Finite 30) ''fromAccountIban: Z'')) =
      decodeFst (body (request ''B'' (Finite 30) []))"
    by (simp add: decodeFst_def request_def)
  have n: "body (request ''B'' (Finite 30) ''fromAccountIban: Z'') \<noteq>
      body (request ''B'' (Finite 30) [])"
    by (simp add: request_def)
  have c1: "snd (transferRoute acceptA recordCall decodeFst []
      (request ''B'' (Finite 30) ''fromAccountIban: Z'')) = [(''A'', ''B'', Finite 30)]"
    by (simp add: transferRoute_def validateTokenMiddleware_def makeHTTPHandleFunc_def
        handleTransfer_def recordCall_def acceptA_def claimsA_def decodeFst_def request_def)
  have c2: "snd (transferRoute acceptA recordCall decodeFst [] (request ''B'' (Finite 30) [])) =
      [(''A'', ''B'', Finite 30)]"
    by (simp add: transferRoute_def validateTokenMiddleware_def makeHTTPHandleFunc_def
        handleTransfer_def recordCall_def acceptA_def claimsA_def decodeFst_def request_def)
  have i: "Claims.IBAN claimsA = ''A''"
    by (simp add: claimsA_def)
  have "transferRoute acceptA (TransferFunds available) decodeFst (bank (Finite 100) (Finite 50))
        (request ''B'' (Finite 30) ''fromAccountIban: Z'') =
      transferRoute acceptA (TransferFunds available) decodeFst (bank (Finite 100) (Finite 50))
        (request ''B'' (Finite 30) [])"
    using transfer_source_from_token[where ValidateToken = acceptA and claims = claimsA
        and ?r1.0 = "request ''B'' (Finite 30) ''fromAccountIban: Z''"
        and ?r2.0 = "request ''B'' (Finite 30) []"
        and ?decode1.0 = decodeFst and ?decode2.0 = decodeFst and decode = decodeFst
        and transferFunds = "TransferFunds available"
        and store = "bank (Finite 100) (Finite 50)", OF h v] d
    by blast
  then show ?thesis
    using h v d n c1 c2 i by blast
qed

text \<open>
  C9, as the code has it. A balance is a float64: for finite balances and a finite amount
  not greater than the source balance, a committed transfer between distinct routing ids
  writes the exact difference and the exact sum, each rounded to the nearest binary64
  number.
\<close>

theorem balances_are_float64:
  assumes "fromIban \<noteq> toIban"
    and "balanceOf s fromIban = Some (Finite p)"
    and "balanceOf s toIban = Some (Finite q)"
    and "a \<le> p"
  shows "fst (TransferFunds available s fromIban toIban (Finite a)) = None
       \<and> balanceOf (snd (TransferFunds available s fromIban toIban (Finite a))) fromIban =
           Some (round_f64 (p - a))
       \<and> balanceOf (snd (TransferFunds available s fromIban toIban (Finite a))) toIban =
           Some (round_f64 (q + a))"
proof -
  have g: "\<not> f64_gt (Finite a) (Finite p)"
    using assms(4) by simp
  note c = TransferFunds_commit[OF assms(2,3) g]
  show ?thesis
    using assms(1) by (simp add: c f64_sub_def)
qed

theorem balances_are_float64_witness:
  "''A'' \<noteq> ''B''
   \<and> balanceOf (bank (Finite 9007199254740992) (Finite 50)) ''A'' = Some (Finite 9007199254740992)
   \<and> balanceOf (bank (Finite 9007199254740992) (Finite 50)) ''B'' = Some (Finite 50)
   \<and> (1 / 4 :: rat) \<le> 9007199254740992
   \<and> fst (TransferFunds available (bank (Finite 9007199254740992) (Finite 50)) ''A'' ''B''
        (Finite (1 / 4))) = None
   \<and> balanceOf (snd (TransferFunds available (bank (Finite 9007199254740992) (Finite 50)) ''A'' ''B''
        (Finite (1 / 4)))) ''A'' = Some (Finite 9007199254740992)
   \<and> balanceOf (snd (TransferFunds available (bank (Finite 9007199254740992) (Finite 50)) ''A'' ''B''
        (Finite (1 / 4)))) ''B'' = Some (Finite (201 / 4))"
proof -
  let ?s = "bank (Finite 9007199254740992) (Finite 50)"
  have n: "''A'' \<noteq> ''B''"
    by simp
  have a: "balanceOf ?s ''A'' = Some (Finite 9007199254740992)"
    by (simp add: balanceOf_def bank_def account_def)
  have b: "balanceOf ?s ''B'' = Some (Finite 50)"
    by (simp add: balanceOf_def bank_def account_def)
  have l: "(1 / 4 :: rat) \<le> 9007199254740992"
    by simp
  have r1: "round_f64 (9007199254740992 - 1 / 4) = Finite 9007199254740992"
    by code_simp
  have r2: "round_f64 (50 + 1 / 4) = Finite (201 / 4)"
    by code_simp
  from balances_are_float64[OF n a b l]
  have "fst (TransferFunds available ?s ''A'' ''B'' (Finite (1 / 4))) = None"
    and "balanceOf (snd (TransferFunds available ?s ''A'' ''B'' (Finite (1 / 4)))) ''A'' =
      Some (Finite 9007199254740992)"
    and "balanceOf (snd (TransferFunds available ?s ''A'' ''B'' (Finite (1 / 4)))) ''B'' =
      Some (Finite (201 / 4))"
    unfolding r1 r2 by blast+
  then show ?thesis
    using n a b l by blast
qed

theorem integer_balance_counterexample:
  "is_integral (Finite 1)
   \<and> is_integral (Finite 9007199254740992)
   \<and> fst (TransferFunds available (bank (Finite 1) (Finite 9007199254740992)) ''A'' ''B''
        (Finite (1 / 2))) = None
   \<and> balanceOf (snd (TransferFunds available (bank (Finite 1) (Finite 9007199254740992)) ''A'' ''B''
        (Finite (1 / 2)))) ''A'' = Some (Finite (1 / 2))
   \<and> \<not> is_integral (Finite (1 / 2))
   \<and> balanceOf (snd (TransferFunds available (bank (Finite 1) (Finite 9007199254740992)) ''A'' ''B''
        (Finite (1 / 2)))) ''B'' = Some (Finite 9007199254740992)
   \<and> Finite 9007199254740992 \<noteq> Finite (9007199254740992 + 1 / 2)"
proof -
  let ?s = "bank (Finite 1) (Finite 9007199254740992)"
  have a: "balanceOf ?s ''A'' = Some (Finite 1)"
    by (simp add: balanceOf_def bank_def account_def)
  have b: "balanceOf ?s ''B'' = Some (Finite 9007199254740992)"
    by (simp add: balanceOf_def bank_def account_def)
  have g: "\<not> f64_gt (Finite (1 / 2)) (Finite 1)"
    by simp
  have r1: "round_f64 (1 / 2) = Finite (1 / 2)"
    by code_simp
  have r2: "round_f64 (18014398509481985 / 2) = Finite 9007199254740992"
    by code_simp
  have i: "\<not> is_integral (Finite (1 / 2))"
    by code_simp
  have i1: "is_integral (Finite 1)" and i2: "is_integral (Finite 9007199254740992)"
    by (simp_all add: is_integral_def)
  note c = TransferFunds_commit[OF a b g]
  have "fst (TransferFunds available ?s ''A'' ''B'' (Finite (1 / 2))) = None"
    and "balanceOf (snd (TransferFunds available ?s ''A'' ''B'' (Finite (1 / 2)))) ''A'' =
      Some (Finite (1 / 2))"
    and "balanceOf (snd (TransferFunds available ?s ''A'' ''B'' (Finite (1 / 2)))) ''B'' =
      Some (Finite 9007199254740992)"
    and "Finite 9007199254740992 \<noteq> Finite (9007199254740992 + 1 / 2)"
    by (simp_all add: c f64_sub_def r1 r2)
  then show ?thesis
    using i i1 i2 by blast
qed

text \<open>
  C10, as the code has it. A transfer from an existing routing id to itself, of an amount
  not greater than the balance, commits with the store available. The second lock reads
  the balance the first write left, so the balance afterwards is the float64 sum of the
  float64 difference \<open>balance - amount\<close> and the amount; it is the balance before when the
  difference is not rounded.
\<close>

theorem self_transfer_balance:
  assumes "balanceOf s iban = Some balance"
    and "f64_le amount balance"
  shows "fst (TransferFunds available s iban iban amount) = None
       \<and> balanceOf (snd (TransferFunds available s iban iban amount)) iban =
           Some (f64_add (f64_sub balance amount) amount)
       \<and> (wf_f64 balance \<and> exact_sub balance amount \<longrightarrow>
            balanceOf (snd (TransferFunds available s iban iban amount)) iban = Some balance)"
proof -
  note c = TransferFunds_commit[OF assms(1,1) f64_le_not_gt[OF assms(2)]]
  have after: "balanceOf (snd (TransferFunds available s iban iban amount)) iban =
      Some (f64_add (f64_sub balance amount) amount)"
    by (simp add: c(2))
  have "f64_add (f64_sub balance amount) amount = balance"
    if w: "wf_f64 balance" and e: "exact_sub balance amount"
  proof -
    obtain p a where pa: "balance = Finite p" "amount = Finite a"
      "f64_sub balance amount = Finite (p - a)"
      using e by (auto simp: exact_sub_def split: float64.splits)
    have r: "round_f64 p = Finite p"
      using w pa(1) by (simp add: wf_f64_def)
    have "f64_add (Finite (p - a)) (Finite a) = Finite p"
      by (simp add: r)
    then show ?thesis
      unfolding pa(3) by (simp add: pa(1,2))
  qed
  then show ?thesis
    using c(1) after by simp
qed

theorem self_transfer_balance_witness:
  "balanceOf (bank (Finite 100) (Finite 50)) ''A'' = Some (Finite 100)
   \<and> f64_le (Finite 30) (Finite 100)
   \<and> wf_f64 (Finite 100)
   \<and> exact_sub (Finite 100) (Finite 30)
   \<and> fst (TransferFunds available (bank (Finite 100) (Finite 50)) ''A'' ''A'' (Finite 30)) = None
   \<and> balanceOf (snd (TransferFunds available (bank (Finite 100) (Finite 50)) ''A'' ''A''
        (Finite 30))) ''A'' = Some (Finite 100)"
proof -
  have a: "balanceOf (bank (Finite 100) (Finite 50)) ''A'' = Some (Finite 100)"
    by (simp add: balanceOf_def bank_def account_def)
  have l: "f64_le (Finite 30) (Finite 100)"
    by simp
  have w: "wf_f64 (Finite 100)"
    by (simp add: wf_f64_def round_f64_100)
  have e: "exact_sub (Finite 100) (Finite 30)"
    by (simp add: exact_sub_def f64_sub_def round_f64_70)
  show ?thesis
    using self_transfer_balance[OF a l] a l w e by blast
qed

theorem self_transfer_rounding_counterexample:
  "balanceOf (bank (Finite 9007199254740994) (Finite 0)) ''A'' = Some (Finite 9007199254740994)
   \<and> f64_le (Finite 1) (Finite 9007199254740994)
   \<and> fst (TransferFunds available (bank (Finite 9007199254740994) (Finite 0)) ''A'' ''A''
        (Finite 1)) = None
   \<and> balanceOf (snd (TransferFunds available (bank (Finite 9007199254740994) (Finite 0)) ''A'' ''A''
        (Finite 1))) ''A'' = Some (Finite 9007199254740992)
   \<and> balanceOf (snd (TransferFunds available (bank (Finite 9007199254740994) (Finite 0)) ''A'' ''A''
        (Finite 1))) ''A'' \<noteq> balanceOf (bank (Finite 9007199254740994) (Finite 0)) ''A''
   \<and> f64_le (round_f64 (439 / 25)) (round_f64 (5879 / 100))
   \<and> fst (TransferFunds available (bank (round_f64 (5879 / 100)) (Finite 0)) ''A'' ''A''
        (round_f64 (439 / 25))) = None
   \<and> balanceOf (snd (TransferFunds available (bank (round_f64 (5879 / 100)) (Finite 0)) ''A'' ''A''
        (round_f64 (439 / 25)))) ''A'' \<noteq>
       balanceOf (bank (round_f64 (5879 / 100)) (Finite 0)) ''A''"
proof -
  let ?s = "bank (Finite 9007199254740994) (Finite 0)"
  have a: "balanceOf ?s ''A'' = Some (Finite 9007199254740994)"
    by (simp add: balanceOf_def bank_def account_def)
  have g: "\<not> f64_gt (Finite 1) (Finite 9007199254740994)"
    by simp
  note c = TransferFunds_commit[OF a a g]
  have big: "balanceOf ?s ''A'' = Some (Finite 9007199254740994)
      \<and> f64_le (Finite 1) (Finite 9007199254740994)
      \<and> fst (TransferFunds available ?s ''A'' ''A'' (Finite 1)) = None
      \<and> balanceOf (snd (TransferFunds available ?s ''A'' ''A'' (Finite 1))) ''A'' =
          Some (Finite 9007199254740992)
      \<and> balanceOf (snd (TransferFunds available ?s ''A'' ''A'' (Finite 1))) ''A'' \<noteq>
          balanceOf ?s ''A''"
    by (simp add: c a f64_sub_def round_f64_2p53_1)
  let ?b = "Finite (8273956940409733 / 140737488355328)"
  let ?x = "Finite (4942700591039119 / 281474976710656)"
  let ?u = "bank ?b (Finite 0)"
  have a2: "balanceOf ?u ''A'' = Some ?b"
    by (simp add: balanceOf_def bank_def account_def)
  have l: "f64_le ?x ?b"
    by simp
  note d = TransferFunds_commit[OF a2 a2 f64_le_not_gt[OF l]]
  have a': "balanceOf (snd (TransferFunds available ?u ''A'' ''A'' ?x)) ''A'' =
      Some (Finite (4136978470204867 / 70368744177664))"
    unfolding d(2) by (simp only: sub_5879_1756 add_4123_1756 simp_thms if_True)
  have "balanceOf (snd (TransferFunds available ?u ''A'' ''A'' ?x)) ''A'' \<noteq> balanceOf ?u ''A''"
    unfolding a' a2 by simp
  then have small: "f64_le (round_f64 (439 / 25)) (round_f64 (5879 / 100))
      \<and> fst (TransferFunds available (bank (round_f64 (5879 / 100)) (Finite 0)) ''A'' ''A''
           (round_f64 (439 / 25))) = None
      \<and> balanceOf (snd (TransferFunds available (bank (round_f64 (5879 / 100)) (Finite 0)) ''A'' ''A''
           (round_f64 (439 / 25)))) ''A'' \<noteq>
          balanceOf (bank (round_f64 (5879 / 100)) (Finite 0)) ''A''"
    unfolding round_f64_5879 round_f64_1756 using l d(1) by blast
  show ?thesis
    using big small by blast
qed

end
